theory Spec2Isabelle
  imports Complex_Main "HOL-Library.AList"
begin

section \<open>Python values used by xefind/find.py\<close>

text \<open>
  A Python \<^verbatim>\<open>str\<close> is modelled as a HOL \<open>string\<close>; a \<open>char\<close> stands for the code
  point of the same number, so the model covers the texts whose code points are below
  256 (ASCII and the Latin-1 supplement).  Exceptions are values of \<open>py_error\<close>;
  a function that may raise returns \<open>py_error + 'a\<close>, with \<open>Inl\<close> for the raise.
\<close>

datatype py_error =
  ValueError | KeyError | NameError | ZeroDivisionError | AttributeError | TypeError

text \<open>
  The values that occur in the queries, projections, documents and report rows:
  \<^verbatim>\<open>None\<close>, booleans, strings, integers, \<^verbatim>\<open>datetime(y, m, d)\<close>, lists and dicts.  A dict
  is an association list in insertion order; \<^verbatim>\<open>d[k] = v\<close> is \<open>AList.update k v d\<close> (it
  replaces the value in place when the key is present and appends the pair otherwise)
  and a lookup of \<open>k\<close> is \<open>map_of d k\<close>.
\<close>

datatype jv =
    JNone
  | JBool bool
  | JStr string
  | JInt int
  | JDate int int int
  | JList "jv list"
  | JDict "(string \<times> jv) list"

type_synonym pydict = "(string \<times> jv) list"

text \<open>
  What a call leaves behind besides its result: the lines it prints and the queries it
  sends to the database client, in the order in which they happen.  \<open>FindOne c q p\<close> is
  \<^verbatim>\<open>xent_collection(collection=c).find_one(q, p)\<close>, \<open>Find c q p\<close> is
  \<^verbatim>\<open>xent_collection(collection=c).find(q, p)\<close>.
\<close>

datatype event =
    Printed string
  | FindOne string pydict pydict
  | Find string pydict pydict

text \<open>
  Truth value of an optional string (an argument that is \<^verbatim>\<open>None\<close> or a \<^verbatim>\<open>str\<close>):
  \<^verbatim>\<open>None\<close> and \<^verbatim>\<open>''\<close> are false.
\<close>

definition truthy :: "string option \<Rightarrow> bool" where
  "truthy s = (case s of None \<Rightarrow> False | Some t \<Rightarrow> t \<noteq> [])"

text \<open>
  Truth value of a value: \<^verbatim>\<open>None\<close>, \<^verbatim>\<open>False\<close>, zero, the empty string, the empty list
  and the empty dict are false.
\<close>

fun jv_truthy :: "jv \<Rightarrow> bool" where
  "jv_truthy JNone = False"
| "jv_truthy (JBool b) = b"
| "jv_truthy (JStr s) = (s \<noteq> [])"
| "jv_truthy (JInt n) = (n \<noteq> 0)"
| "jv_truthy (JDate y m d) = True"
| "jv_truthy (JList xs) = (xs \<noteq> [])"
| "jv_truthy (JDict d) = (d \<noteq> [])"

text \<open>
  \<^verbatim>\<open>v.get(k)\<close> and \<^verbatim>\<open>v[k]\<close> for a string \<open>k\<close>: only a dict has the method \<^verbatim>\<open>get\<close>
  (AttributeError otherwise), which gives \<^verbatim>\<open>None\<close> for an absent key; only a dict can be
  indexed by a string (TypeError otherwise), with KeyError for an absent key.
\<close>

fun py_get :: "jv \<Rightarrow> string \<Rightarrow> py_error + jv" where
  "py_get (JDict d) k = Inr (case map_of d k of None \<Rightarrow> JNone | Some v \<Rightarrow> v)"
| "py_get v k = Inl AttributeError"

fun py_getitem :: "jv \<Rightarrow> string \<Rightarrow> py_error + jv" where
  "py_getitem (JDict d) k = (case map_of d k of None \<Rightarrow> Inl KeyError | Some v \<Rightarrow> Inr v)"
| "py_getitem v k = Inl TypeError"

subsection \<open>Characters and integers\<close>

definition decimal_char :: "char \<Rightarrow> bool" where
  "decimal_char c = (48 \<le> (of_char c :: nat) \<and> (of_char c :: nat) \<le> 57)"

text \<open>
  \<^verbatim>\<open>str.isdigit\<close>: every character has Numeric_Type Digit or Decimal, and there is at
  least one character.  Below code point 256 these are the ten decimal digits and the
  superscripts U+00B2, U+00B3 and U+00B9.
\<close>

definition isdigit_char :: "char \<Rightarrow> bool" where
  "isdigit_char c = (decimal_char c \<or> c = CHR 0xB2 \<or> c = CHR 0xB3 \<or> c = CHR 0xB9)"

definition isdigit :: "string \<Rightarrow> bool" where
  "isdigit s = (s \<noteq> [] \<and> list_all isdigit_char s)"

definition digit_value :: "char \<Rightarrow> nat" where
  "digit_value c = of_char c - 48"

definition digits_value :: "string \<Rightarrow> nat" where
  "digits_value s = foldl (\<lambda>a c. 10 * a + digit_value c) 0 s"

text \<open>
  \<^verbatim>\<open>int(s)\<close> for a string: surrounding whitespace is dropped, one sign is allowed, the
  rest must be decimal digits, where single underscores may stand between digits.
  The whitespace that \<^verbatim>\<open>int\<close> drops is, among the ASCII characters, tab, LF, VT, FF, CR
  and the space (not the separators FS, GS, RS and US, which \<^verbatim>\<open>str.isspace\<close> accepts),
  and above ASCII the Unicode whitespace, below code point 256 NEL and the no-break
  space.  CPython refuses a literal of more than \<^verbatim>\<open>sys.get_int_max_str_digits()\<close> digits
  (4300 unless configured otherwise) with a ValueError as well.
\<close>

definition py_space :: "char \<Rightarrow> bool" where
  "py_space c = (let n = (of_char c :: nat) in
     (9 \<le> n \<and> n \<le> 13) \<or> n = 32 \<or> n = 133 \<or> n = 160)"

definition strip :: "string \<Rightarrow> string" where
  "strip s = rev (dropWhile py_space (rev (dropWhile py_space s)))"

fun digit_groups :: "string \<Rightarrow> bool" where
  "digit_groups [] = False"
| "digit_groups [c] = decimal_char c"
| "digit_groups (c # d # cs) =
     (decimal_char c \<and> (if d = CHR ''_'' then digit_groups cs else digit_groups (d # cs)))"

definition int_max_str_digits :: nat where
  "int_max_str_digits = 4300"

definition py_int :: "string \<Rightarrow> py_error + int" where
  "py_int s =
     (let t = strip s;
          neg = (t \<noteq> [] \<and> hd t = CHR ''-'');
          body = (if t \<noteq> [] \<and> (hd t = CHR ''-'' \<or> hd t = CHR ''+'') then tl t else t);
          ds = filter decimal_char body
      in if \<not> digit_groups body then Inl ValueError
         else if int_max_str_digits < length ds then Inl ValueError
         else Inr (if neg then - int (digits_value ds) else int (digits_value ds)))"

text \<open>\<^verbatim>\<open>str(n)\<close> for an integer, as an f-string field without a format prints it.\<close>

function decimal_digits :: "int \<Rightarrow> string" where
  "decimal_digits n =
     (if n < 10 then [char_of (48 + n)]
      else decimal_digits (n div 10) @ [char_of (48 + n mod 10)])"
  by pat_completeness auto
termination
  by (relation "measure nat") auto

declare decimal_digits.simps [simp del]

definition py_str :: "int \<Rightarrow> string" where
  "py_str n = (if n < 0 then ''-'' @ decimal_digits (- n) else decimal_digits n)"

subsection \<open>Floating point\<close>

text \<open>
  A finite \<^verbatim>\<open>float\<close> is a binary64 number, modelled by the rational it denotes.  \<open>fl q\<close>
  is the binary64 number nearest to \<open>q\<close>, ties to the even significand: with \<open>e\<close> the
  binary exponent of \<open>q\<close> (\<open>2\<^sup>e \<le> \<bar>q\<bar> < 2\<^sup>e\<^sup>+\<^sup>1\<close>) it keeps 53 significant bits.  The
  exponent range is not bounded here: the quotients and products of this program are
  ratios of list lengths times 100, and CPython keeps a length below \<open>2\<^sup>6\<^sup>3\<close>, far inside
  the normal range.  \<^verbatim>\<open>a / b\<close> on integers is the correctly rounded quotient,
  \<^verbatim>\<open>x * y\<close> on floats the correctly rounded product, and \<^verbatim>\<open>format(x, '.1f')\<close> prints the
  decimal with one fractional digit nearest to the exact value of \<open>x\<close>, ties to even.
\<close>

function bit_length :: "int \<Rightarrow> int" where
  "bit_length n = (if n \<le> 0 then 0 else 1 + bit_length (n div 2))"
  by pat_completeness auto
termination
  by (relation "measure nat") auto

declare bit_length.simps [simp del]

definition pow2 :: "int \<Rightarrow> rat" where
  "pow2 k = (if 0 \<le> k then 2 ^ nat k else 1 / 2 ^ nat (- k))"

definition round_half_even :: "rat \<Rightarrow> int" where
  "round_half_even q =
     (let f = \<lfloor>q\<rfloor>; r = q - of_int f
      in if r < 1 / 2 then f
         else if 1 / 2 < r then f + 1
         else if even f then f else f + 1)"

definition binary_exponent :: "rat \<Rightarrow> int" where
  "binary_exponent q =
     (let (a, b) = quotient_of q;
          d = bit_length a - bit_length b
      in if pow2 d \<le> q then d else d - 1)"

definition fl :: "rat \<Rightarrow> rat" where
  "fl q =
     (if q = 0 then 0
      else let e = binary_exponent \<bar>q\<bar>
           in of_int (round_half_even (q * pow2 (52 - e))) * pow2 (e - 52))"

definition py_truediv :: "int \<Rightarrow> int \<Rightarrow> py_error + rat" where
  "py_truediv a b = (if b = 0 then Inl ZeroDivisionError else Inr (fl (of_int a / of_int b)))"

definition py_float_mul :: "rat \<Rightarrow> rat \<Rightarrow> rat" where
  "py_float_mul x y = fl (x * y)"

definition format_1f :: "rat \<Rightarrow> string" where
  "format_1f x =
     (let k = round_half_even (\<bar>x\<bar> * 10)
      in (if x < 0 then ''-'' else '''') @ decimal_digits (k div 10) @ ''.'' @
         decimal_digits (k mod 10))"

subsection \<open>Lines of a text\<close>

text \<open>
  \<^verbatim>\<open>str.splitlines()\<close>: the text is cut at every line boundary, the boundaries are
  dropped, and a boundary at the very end opens no further line.  Below code point 256
  the boundaries are LF, VT, FF, CR (CR LF counts once), FS, GS, RS and NEL.
\<close>

definition line_boundary :: "char \<Rightarrow> bool" where
  "line_boundary c =
     (c = CHR 0x0A \<or> c = CHR 0x0B \<or> c = CHR 0x0C \<or> c = CHR 0x0D \<or>
      c = CHR 0x1C \<or> c = CHR 0x1D \<or> c = CHR 0x1E \<or> c = CHR 0x85)"

fun splitlines_from :: "string \<Rightarrow> string \<Rightarrow> string list" where
  "splitlines_from cur [] = (if cur = [] then [] else [cur])"
| "splitlines_from cur [c] =
     (if line_boundary c then [cur] else [cur @ [c]])"
| "splitlines_from cur (c # d # cs) =
     (if c = CHR 0x0D \<and> d = CHR 0x0A then cur # splitlines_from [] cs
      else if line_boundary c then cur # splitlines_from [] (d # cs)
      else splitlines_from (cur @ [c]) (d # cs))"

definition splitlines :: "string \<Rightarrow> string list" where
  "splitlines s = splitlines_from [] s"

section \<open>The database client and the module's global tables\<close>

text \<open>
  The client of the document database (utilix) is outside the repository.  It is a
  parameter of every function that queries it: \<open>contexts_find_one db q p\<close> is what
  \<^verbatim>\<open>find_one(q, p)\<close> on the contexts collection returns, \<open>runs_find db q p\<close> the documents
  that \<^verbatim>\<open>find(q, p)\<close> on the runs collection yields.  A document of the contexts
  collection is the dict that the client returns, with whatever fields and values the
  collection holds; a document of the runs collection holds its run number.
\<close>

record run_doc =
  number :: int

record database =
  contexts_find_one :: "pydict \<Rightarrow> pydict \<Rightarrow> pydict option"
  runs_find :: "pydict \<Rightarrow> pydict \<Rightarrow> run_doc list"

text \<open>The tables that the module never changes.\<close>

definition RECOMMENDED :: "(string \<times> string) list" where
  "RECOMMENDED =
     [(''xenonnt_v14'', ''2024.01.1''),
      (''xenonnt_v13'', ''2023.11.1''),
      (''xenonnt_v12'', ''2023.10.1''),
      (''xenonnt_v11'', ''2023.07.1''),
      (''xenonnt_v8'', ''2022.06.3'')]"

definition ENV_VERSIONS :: "(string \<times> pydict) list" where
  "ENV_VERSIONS =
     [(''xenonnt_v14'',
         [(''straxen_version'', JStr ''2.2.0''), (''strax_version'', JStr ''1.6.0''),
          (''cutax_version'', JStr ''1.16.0'')]),
      (''xenonnt_v13'',
         [(''straxen_version'', JStr ''2.1.5''), (''strax_version'', JStr ''1.5.4''),
          (''cutax_version'', JStr ''1.15.5'')]),
      (''xenonnt_v12'',
         [(''straxen_version'', JStr ''2.1.4''), (''strax_version'', JStr ''1.5.4''),
          (''cutax_version'', JStr ''1.15.4'')]),
      (''xenonnt_v11'',
         [(''straxen_version'', JStr ''2.1.1''), (''strax_version'', JStr ''1.5.2''),
          (''cutax_version'', JStr ''1.15.1'')])]"

text \<open>
  The module-level names whose value a call reads and may change: the list \<open>LOCATIONS\<close>,
  the dict \<open>SCIENCE_RUNS\<close>, and the name \<^verbatim>\<open>data_type\<close>, which is bound only by the
  \<^verbatim>\<open>__main__\<close> block (to the positional command-line argument) and is unbound when the
  module is imported.
\<close>

record globals =
  LOCATIONS :: "string list"
  SCIENCE_RUNS :: "(string \<times> pydict) list"
  global_data_type :: "string option"

definition module_globals :: globals where
  "module_globals =
     \<lparr> LOCATIONS = [''UC_DALI_USERDISK'', ''UC_MIDWAY_USERDISK''],
       SCIENCE_RUNS =
         [(''sr0'',
             [(''$or'',
                 JList [JDict [(''tags.name'', JStr ''_sr0'')],
                        JDict [(''source'', JStr ''th-232''),
                               (''start'', JDict [(''$lte'', JDate 2022 8 1)])]])]),
          (''sr0_ted'', [(''tags.name'', JStr ''_sr0_ted'')]),
          (''sr1'', [(''tags.name'', JStr ''_sr1_preliminary'')])],
       global_data_type = None \<rparr>"

definition script_globals :: "string \<Rightarrow> globals" where
  "script_globals data_type = module_globals \<lparr> global_data_type := Some data_type \<rparr>"

section \<open>The functions of find.py\<close>

text \<open>
  \<open>find\<close> of find.py (the name is taken in HOL): \<^verbatim>\<open>xent_collection()\<close> without an
  argument is the runs collection.
\<close>

definition find_coll :: "database \<Rightarrow> pydict \<Rightarrow> pydict \<Rightarrow> event list \<times> run_doc list" where
  "find_coll db query projection =
     ([Find ''runs'' query projection], runs_find db query projection)"

text \<open>
  \<^verbatim>\<open>query = SCIENCE_RUNS[science_run]\<close> is the dict stored in the table, not a copy, so
  \<^verbatim>\<open>query['source'] = source\<close> changes the table's entry.
\<close>

definition get_runs_from_source ::
  "globals \<Rightarrow> database \<Rightarrow> string \<Rightarrow> string \<Rightarrow>
     globals \<times> event list \<times> (py_error + int list)" where
  "get_runs_from_source g db science_run source =
     (case map_of (SCIENCE_RUNS g) science_run of
        None \<Rightarrow> (g, [], Inl KeyError)
      | Some q \<Rightarrow>
          (let query = AList.update ''source'' (JStr source) q;
               g' = g \<lparr> SCIENCE_RUNS := AList.update science_run query (SCIENCE_RUNS g) \<rparr>;
               projection = [(''number'', JInt 1)];
               (ev, runlist) = find_coll db query projection
           in (g', ev, Inr (map number runlist))))"

text \<open>
  \<^verbatim>\<open>if not res\<close> holds for \<^verbatim>\<open>None\<close> and for a dict without keys.  \<^verbatim>\<open>res['hashes']\<close>
  raises KeyError on a document without that field, and \<^verbatim>\<open>.get(data_type)\<close> gives
  \<^verbatim>\<open>None\<close> when the field has no entry for the data type.
\<close>

definition get_lineage_hash ::
  "database \<Rightarrow> string \<Rightarrow> string \<Rightarrow> string \<Rightarrow> event list \<times> (py_error + jv \<times> pydict)" where
  "get_lineage_hash db context environment data_type =
     (let query = [(''name'', JStr context), (''tag'', JStr environment)];
          projection = [(''hashes.'' @ data_type, JInt 1), (''straxen_version'', JInt 1),
                        (''strax_version'', JInt 1), (''cutax_version'', JInt 1)];
          ev = [FindOne ''contexts'' query projection]
      in case contexts_find_one db query projection of
           None \<Rightarrow> (ev, Inr (JNone, []))
         | Some res \<Rightarrow>
             if res = [] then (ev, Inr (JNone, []))
             else
               (case map_of res ''hashes'' of
                  None \<Rightarrow> (ev, Inl KeyError)
                | Some hashes \<Rightarrow>
                    (case py_get hashes data_type of
                       Inl e \<Rightarrow> (ev, Inl e)
                     | Inr lineage_hash \<Rightarrow>
                         (ev, Inr (lineage_hash,
                            map (\<lambda>k. (k, case map_of res k of
                                            None \<Rightarrow> JStr ''UNKNOWN'' | Some v \<Rightarrow> v))
                              [''straxen_version'', ''strax_version'', ''cutax_version''])))))"

text \<open>
  \<open>get_lineae_hash_from_version\<close> has no parameter \<^verbatim>\<open>data_type\<close>: the name is looked up
  among the module's globals when the projection is built.  The query is
  \<^verbatim>\<open>{**versions, 'name': context}\<close>, and the hash is \<^verbatim>\<open>res['hashes'][data_type]\<close>, which
  raises where \<open>get_lineage_hash\<close> gives \<^verbatim>\<open>None\<close>.
\<close>

definition get_lineae_hash_from_version ::
  "globals \<Rightarrow> database \<Rightarrow> string \<Rightarrow> pydict \<Rightarrow> event list \<times> (py_error + jv)" where
  "get_lineae_hash_from_version g db context versions =
     (let query = AList.update ''name'' (JStr context) versions
      in case global_data_type g of
           None \<Rightarrow> ([], Inl NameError)
         | Some data_type \<Rightarrow>
             (let projection = [(''hashes.'' @ data_type, JInt 1)];
                  ev = [FindOne ''contexts'' query projection]
              in case contexts_find_one db query projection of
                   None \<Rightarrow> (ev, Inr JNone)
                 | Some res \<Rightarrow>
                     if res = [] then (ev, Inr JNone)
                     else
                       (case map_of res ''hashes'' of
                          None \<Rightarrow> (ev, Inl KeyError)
                        | Some hashes \<Rightarrow> (ev, py_getitem hashes data_type))))"

subsection \<open>read_run_ids_from_file\<close>

text \<open>
  The file system is a partial map from a path to the text that \<^verbatim>\<open>file.read()\<close> returns
  for the regular file at that path; \<^verbatim>\<open>os.path.isfile\<close> holds exactly on its domain.
\<close>

type_synonym filesystem = "string \<Rightarrow> string option"

text \<open>
  The comprehension \<^verbatim>\<open>[int(run_id) for run_id in run_ids if run_id.isdigit()]\<close>: a
  ValueError of \<^verbatim>\<open>int\<close> ends it.
\<close>

fun digit_lines_to_int :: "string list \<Rightarrow> py_error + int list" where
  "digit_lines_to_int [] = Inr []"
| "digit_lines_to_int (run_id # run_ids) =
     (if isdigit run_id then
        (case py_int run_id of
           Inl e \<Rightarrow> Inl e
         | Inr v \<Rightarrow>
             (case digit_lines_to_int run_ids of
                Inl e \<Rightarrow> Inl e
              | Inr vs \<Rightarrow> Inr (v # vs)))
      else digit_lines_to_int run_ids)"

definition read_run_ids_from_file ::
  "filesystem \<Rightarrow> string \<Rightarrow> event list \<times> (py_error + int list)" where
  "read_run_ids_from_file fs filename =
     (case fs filename of
        None \<Rightarrow> ([Printed (''File '' @ filename @ '' not found'')], Inr [])
      | Some text \<Rightarrow> ([], digit_lines_to_int (splitlines text)))"

subsection \<open>get_runs_from_db\<close>

definition get_runs_from_db ::
  "database \<Rightarrow> int list \<Rightarrow> string \<Rightarrow> jv \<Rightarrow> string option \<Rightarrow> event list \<times> int list" where
  "get_runs_from_db db run_ids data_type lineage_hash location =
     (let elem = [(''type'', JStr data_type), (''meta.lineage_hash'', lineage_hash)];
          elem' = (if truthy location then AList.update ''location'' (JStr (the location)) elem
                   else elem);
          query = [(''number'', JDict [(''$in'', JList (map JInt run_ids))]),
                   (''data'', JDict [(''$elemMatch'', JDict elem')])];
          projection = [(''number'', JInt 1)]
      in ([Find ''runs'' query projection], map number (runs_find db query projection)))"

subsection \<open>check_runs_available\<close>

text \<open>
  Lines 179 to 182, the lineage hash and the versions of one context: the lookup by name
  and tag, and when its hash is false the lookup by the versions of \<open>ENV_VERSIONS\<close>, a
  table that has no entry for every recommended context.
\<close>

definition resolve_lineage ::
  "globals \<Rightarrow> database \<Rightarrow> string \<Rightarrow> string \<Rightarrow> string \<Rightarrow>
     event list \<times> (py_error + jv \<times> pydict)" where
  "resolve_lineage g db context env_version data_type =
     (case get_lineage_hash db context env_version data_type of
        (ev, Inl e) \<Rightarrow> (ev, Inl e)
      | (ev, Inr (lineage_hash, versions)) \<Rightarrow>
          if jv_truthy lineage_hash then (ev, Inr (lineage_hash, versions))
          else
            (case map_of ENV_VERSIONS context of
               None \<Rightarrow> (ev, Inl KeyError)
             | Some versions \<Rightarrow>
                 (case get_lineae_hash_from_version g db context versions of
                    (ev', Inl e) \<Rightarrow> (ev @ ev', Inl e)
                  | (ev', Inr lineage_hash) \<Rightarrow> (ev @ ev', Inr (lineage_hash, versions)))))"

text \<open>Line 189: \<^verbatim>\<open>{k.split('_')[0]: v for k, v in versions.items()}\<close>.\<close>

definition strip_version_suffix :: "pydict \<Rightarrow> pydict" where
  "strip_version_suffix versions =
     foldl (\<lambda>d (k, v). AList.update (takeWhile (\<lambda>c. c \<noteq> CHR ''_'') k) v d) [] versions"

text \<open>Lines 192 to 198, the dict display with \<^verbatim>\<open>**versions\<close> at its end.\<close>

definition new_doc ::
  "string \<Rightarrow> string \<Rightarrow> int list \<Rightarrow> jv \<Rightarrow> pydict \<Rightarrow> pydict" where
  "new_doc context env_version run_ids lineage_hash versions =
     foldl (\<lambda>d (k, v). AList.update k v d)
       [(''Context'', JStr context), (''Environment'', JStr env_version),
        (''Total Checked'', JInt (int (length run_ids))), (''LineageHash'', lineage_hash)]
       versions"

text \<open>
  Line 202, the f-string
  \<^verbatim>\<open>f"{len(runs_location)} ({len(runs_location) / len(run_ids) * 100:.1f}%)"\<close>
  for \<open>n = len(runs_location)\<close> and \<open>t = len(run_ids)\<close>.
\<close>

definition availability :: "int \<Rightarrow> int \<Rightarrow> py_error + string" where
  "availability n t =
     (case py_truediv n t of
        Inl e \<Rightarrow> Inl e
      | Inr q \<Rightarrow> Inr (py_str n @ '' ('' @ format_1f (py_float_mul q 100) @ ''%)''))"

text \<open>Lines 200 to 202, the loop over the locations.\<close>

fun location_cells ::
  "database \<Rightarrow> int list \<Rightarrow> string \<Rightarrow> jv \<Rightarrow> string list \<Rightarrow> pydict \<Rightarrow>
     event list \<times> (py_error + pydict)" where
  "location_cells db run_ids data_type lineage_hash [] doc = ([], Inr doc)"
| "location_cells db run_ids data_type lineage_hash (location # locations) doc =
     (case get_runs_from_db db run_ids data_type lineage_hash (Some location) of
        (ev, runs_location) \<Rightarrow>
          (case availability (int (length runs_location)) (int (length run_ids)) of
             Inl e \<Rightarrow> (ev, Inl e)
           | Inr cell \<Rightarrow>
               (case location_cells db run_ids data_type lineage_hash locations
                       (AList.update location (JStr cell) doc) of
                  (ev', r) \<Rightarrow> (ev @ ev', r))))"

text \<open>
  Lines 178 to 207, the loop over \<open>RECOMMENDED.items()\<close>.  \<^verbatim>\<open>locations = LOCATIONS\<close> names
  the module's list itself, so \<^verbatim>\<open>locations.append(extra_location)\<close> changes \<open>LOCATIONS\<close>,
  once in every pass of the loop.
\<close>

fun check_contexts ::
  "globals \<Rightarrow> database \<Rightarrow> string \<Rightarrow> int list \<Rightarrow> string option \<Rightarrow> (string \<times> string) list \<Rightarrow>
     pydict list \<Rightarrow> globals \<times> event list \<times> (py_error + pydict list)" where
  "check_contexts g db data_type run_ids extra_location [] docs = (g, [], Inr docs)"
| "check_contexts g db data_type run_ids extra_location ((context, env_version) # rest) docs =
     (case resolve_lineage g db context env_version data_type of
        (ev, Inl e) \<Rightarrow> (g, ev, Inl e)
      | (ev, Inr (lineage_hash, versions)) \<Rightarrow>
          (let g' = (if truthy extra_location
                     then g \<lparr> LOCATIONS := LOCATIONS g @ [the extra_location] \<rparr> else g);
               locations = LOCATIONS g';
               versions' = strip_version_suffix versions
           in if jv_truthy lineage_hash then
                (case location_cells db run_ids data_type lineage_hash locations
                        (new_doc context env_version run_ids lineage_hash versions') of
                   (ev', Inl e) \<Rightarrow> (g', ev @ ev', Inl e)
                 | (ev', Inr doc) \<Rightarrow>
                     (case check_contexts g' db data_type run_ids extra_location rest
                             (docs @ [doc]) of
                        (g'', ev'', r) \<Rightarrow> (g'', ev @ ev' @ ev'', r)))
              else
                (case check_contexts g' db data_type run_ids extra_location rest docs of
                   (g'', ev'', r) \<Rightarrow>
                     (g'',
                      ev @ [Printed (''Lineage hash not found for '' @ context @ '' and '' @
                                     env_version)] @ ev'',
                      r))))"

text \<open>
  The result is the list of row dicts that \<^verbatim>\<open>pd.DataFrame(docs)\<close> is built from, one
  row per dict, a column per key.  \<open>extra_location\<close> is \<open>None\<close> for the \<^verbatim>\<open>None\<close>
  that the command line passes by default, and \<open>Some s\<close> for a string, the signature's
  default \<^verbatim>\<open>''\<close> included.
\<close>

definition check_runs_available ::
  "globals \<Rightarrow> database \<Rightarrow> string \<Rightarrow> int list \<Rightarrow> string option \<Rightarrow>
     globals \<times> event list \<times> (py_error + pydict list)" where
  "check_runs_available g db data_type run_ids extra_location =
     (if run_ids = [] then (g, [], Inl ValueError)
      else check_contexts g db data_type run_ids extra_location RECOMMENDED [])"

section \<open>Notions used in the statements\<close>

subsection \<open>Rows of the report\<close>

text \<open>
  The cell that line 202 writes when the division does not raise, the number of runs
  that the runs collection returns for one location, and a row after the cells of a list
  of locations were written into it.
\<close>

definition cell_text :: "int \<Rightarrow> int \<Rightarrow> string" where
  "cell_text n t =
     py_str n @ '' ('' @ format_1f (py_float_mul (fl (of_int n / of_int t)) 100) @ ''%)''"

definition matched :: "database \<Rightarrow> int list \<Rightarrow> string \<Rightarrow> jv \<Rightarrow> string \<Rightarrow> int" where
  "matched db run_ids data_type lineage_hash location =
     int (length (snd (get_runs_from_db db run_ids data_type lineage_hash (Some location))))"

definition with_cells ::
  "database \<Rightarrow> int list \<Rightarrow> string \<Rightarrow> jv \<Rightarrow> string list \<Rightarrow> pydict \<Rightarrow> pydict" where
  "with_cells db run_ids data_type lineage_hash locations doc =
     foldl (\<lambda>d l. AList.update l
                (JStr (cell_text (matched db run_ids data_type lineage_hash l) (int (length run_ids)))) d)
       doc locations"

text \<open>The locations that a call iterates over, as a set, and the globals after one pass.\<close>

definition used_locations :: "globals \<Rightarrow> string option \<Rightarrow> string set" where
  "used_locations g extra_location =
     set (LOCATIONS g) \<union> (if truthy extra_location then {the extra_location} else {})"

definition next_globals :: "globals \<Rightarrow> string option \<Rightarrow> globals" where
  "next_globals g extra_location =
     (if truthy extra_location then g \<lparr> LOCATIONS := LOCATIONS g @ [the extra_location] \<rparr> else g)"

definition context_row ::
  "globals \<Rightarrow> database \<Rightarrow> string \<Rightarrow> int list \<Rightarrow> string option \<Rightarrow> string \<Rightarrow> string \<Rightarrow>
     jv \<Rightarrow> pydict \<Rightarrow> pydict" where
  "context_row g db dt run_ids x c env h v =
     with_cells db run_ids dt h (LOCATIONS (next_globals g x))
       (new_doc c env run_ids h (strip_version_suffix v))"

definition context_events ::
  "globals \<Rightarrow> database \<Rightarrow> string \<Rightarrow> int list \<Rightarrow> string option \<Rightarrow> string \<Rightarrow> string \<Rightarrow>
     jv \<Rightarrow> event list" where
  "context_events g db dt run_ids x c env h =
     (if jv_truthy h
      then concat (map (\<lambda>l. fst (get_runs_from_db db run_ids dt h (Some l)))
                    (LOCATIONS (next_globals g x)))
      else [Printed (''Lineage hash not found for '' @ c @ '' and '' @ env)])"

definition resolved_row ::
  "globals \<Rightarrow> database \<Rightarrow> string \<Rightarrow> int list \<Rightarrow> string option \<Rightarrow> (string \<times> string) list \<Rightarrow>
     pydict \<Rightarrow> bool" where
  "resolved_row g db dt run_ids x cs r =
     (\<exists>c env h v locs.
        (c, env) \<in> set cs \<and>
        snd (resolve_lineage g db c env dt) = Inr (h, v) \<and> jv_truthy h \<and>
        set locs = used_locations g x \<and>
        r = with_cells db run_ids dt h locs (new_doc c env run_ids h (strip_version_suffix v)))"

definition version_row ::
  "string \<Rightarrow> string \<Rightarrow> int list \<Rightarrow> jv \<Rightarrow> jv \<Rightarrow> jv \<Rightarrow> jv \<Rightarrow> pydict" where
  "version_row c env run_ids h a b d =
     [(''Context'', JStr c), (''Environment'', JStr env),
      (''Total Checked'', JInt (int (length run_ids))), (''LineageHash'', h),
      (''straxen'', a), (''strax'', b), (''cutax'', d)]"

text \<open>The rows of a result; none when the call raised.\<close>

definition report_rows :: "globals \<times> event list \<times> (py_error + pydict list) \<Rightarrow> pydict list" where
  "report_rows res = (case snd (snd res) of Inl e \<Rightarrow> [] | Inr rows \<Rightarrow> rows)"

subsection \<open>Lines of a run id file\<close>

text \<open>
  The lines that newlines delimit (\<^verbatim>\<open>text.split('\n')\<close>), and the run ids of a list of
  lines: the lines made of decimal digits only, read as numbers.
\<close>

fun split_from :: "string \<Rightarrow> string \<Rightarrow> string list" where
  "split_from cur [] = [cur]"
| "split_from cur (c # cs) =
     (if c = CHR 0x0A then cur # split_from [] cs else split_from (cur @ [c]) cs)"

definition split_newline :: "string \<Rightarrow> string list" where
  "split_newline s = split_from [] s"

definition run_ids_of_lines :: "string list \<Rightarrow> int list" where
  "run_ids_of_lines ls =
     map (\<lambda>l. int (digits_value l)) (filter (\<lambda>l. l \<noteq> [] \<and> list_all decimal_char l) ls)"

text \<open>
  The result as the specification words it: the newline-delimited lines that are valid
  integers (that \<^verbatim>\<open>int\<close> accepts), converted, in the order of the file.
\<close>

definition newline_integer_lines :: "string \<Rightarrow> int list" where
  "newline_integer_lines text =
     concat (map (\<lambda>l. case py_int l of Inl e \<Rightarrow> [] | Inr v \<Rightarrow> [v]) (split_newline text))"

subsection \<open>Histories of calls\<close>

text \<open>
  The calls that read or change the module's globals, and the globals after a sequence
  of them, each with the database as it was at that call.
\<close>

datatype call =
    SourceCall database string string
  | CheckCall database string "int list" "string option"

fun after_call :: "globals \<Rightarrow> call \<Rightarrow> globals" where
  "after_call g (SourceCall db science_run source) =
     fst (get_runs_from_source g db science_run source)"
| "after_call g (CheckCall db data_type run_ids extra_location) =
     fst (check_runs_available g db data_type run_ids extra_location)"

definition after_calls :: "globals \<Rightarrow> call list \<Rightarrow> globals" where
  "after_calls g calls = foldl after_call g calls"

text \<open>
  The shape of \<open>SCIENCE_RUNS\<close> in every state that calls reach: the three predicates of
  the module, each with or without a top-level \<^verbatim>\<open>source\<close> key after them.
\<close>

definition with_source :: "string option \<Rightarrow> pydict \<Rightarrow> pydict" where
  "with_source s q = (case s of None \<Rightarrow> q | Some t \<Rightarrow> q @ [(''source'', JStr t)])"

definition science_runs_state :: "globals \<Rightarrow> bool" where
  "science_runs_state g =
     (\<exists>a b c. SCIENCE_RUNS g =
        [(''sr0'',
            with_source a
              [(''$or'',
                 JList [JDict [(''tags.name'', JStr ''_sr0'')],
                        JDict [(''source'', JStr ''th-232''),
                               (''start'', JDict [(''$lte'', JDate 2022 8 1)])]])]),
         (''sr0_ted'', with_source b [(''tags.name'', JStr ''_sr0_ted'')]),
         (''sr1'', with_source c [(''tags.name'', JStr ''_sr1_preliminary'')])])"

section \<open>Sample inputs\<close>

text \<open>A file system without files, and one with a single file.\<close>

definition no_files :: filesystem where
  "no_files = (\<lambda>p. None)"

definition one_file :: "string \<Rightarrow> string \<Rightarrow> filesystem" where
  "one_file path text = (\<lambda>p. if p = path then Some text else None)"

text \<open>A database without documents.\<close>

definition db_none :: database where
  "db_none = \<lparr> contexts_find_one = (\<lambda>q p. None), runs_find = (\<lambda>q p. []) \<rparr>"

text \<open>
  A database in which the contexts collection answers the lookup by name and tag for
  xenonnt_v8 (a document without cutax version) and for xenonnt_v13, and answers the
  lookup by versions for the versions of xenonnt_v14 (with a document whose own version
  field differs from the table's); xenonnt_v12 and xenonnt_v11 are not found either way.
  In the runs collection, runs 1 and 3 have peaklets of lineage hash abc at
  UC_DALI_USERDISK, and runs 7 and 9 have the source th-232.
\<close>

definition demo_db :: database where
  "demo_db =
     \<lparr> contexts_find_one =
         (\<lambda>q p. if map_of q ''name'' = Some (JStr ''xenonnt_v8'')
                then Some [(''hashes'', JDict [(''peaklets'', JStr ''h8'')]),
                           (''straxen_version'', JStr ''1.8.3''),
                           (''strax_version'', JStr ''1.2.2'')]
                else if map_of q ''tag'' = Some (JStr ''2023.11.1'')
                then Some [(''hashes'', JDict [(''peaklets'', JStr ''h13'')]),
                           (''straxen_version'', JStr ''2.1.5''),
                           (''strax_version'', JStr ''1.5.4''),
                           (''cutax_version'', JStr ''1.15.5'')]
                else if map_of q ''straxen_version'' = Some (JStr ''2.2.0'')
                then Some [(''hashes'', JDict [(''peaklets'', JStr ''abc'')]),
                           (''straxen_version'', JStr ''9.9.9'')]
                else None),
       runs_find =
         (\<lambda>q p. if map_of q ''data'' =
                     Some (JDict [(''$elemMatch'',
                             JDict [(''type'', JStr ''peaklets''),
                                    (''meta.lineage_hash'', JStr ''abc''),
                                    (''location'', JStr ''UC_DALI_USERDISK'')])])
                then [\<lparr> number = 1 \<rparr>, \<lparr> number = 3 \<rparr>]
                else if map_of q ''source'' = Some (JStr ''th-232'')
                then [\<lparr> number = 7 \<rparr>, \<lparr> number = 9 \<rparr>]
                else []) \<rparr>"

text \<open>
  A database whose document for xenonnt_v14 under its recommended tag holds the empty
  string as hash of peaklets; xenonnt_v8 is found by name and tag, nothing else is
  found, and the runs collection is empty.
\<close>

definition empty_hash_db :: database where
  "empty_hash_db =
     \<lparr> contexts_find_one =
         (\<lambda>q p. if map_of q ''tag'' = Some (JStr ''2024.01.1'')
                then Some [(''hashes'', JDict [(''peaklets'', JStr '''')]),
                           (''straxen_version'', JStr ''2.2.0''),
                           (''strax_version'', JStr ''1.6.0''),
                           (''cutax_version'', JStr ''1.16.0'')]
                else if map_of q ''name'' = Some (JStr ''xenonnt_v8'')
                then Some [(''hashes'', JDict [(''peaklets'', JStr ''h8'')]),
                           (''straxen_version'', JStr ''1.8.3''),
                           (''strax_version'', JStr ''1.2.2'')]
                else None),
       runs_find = (\<lambda>q p. []) \<rparr>"

section \<open>Lemmas\<close>

subsection \<open>Digit lines\<close>

lemma decimal_char_props:
  assumes "decimal_char c"
  shows "\<not> py_space c" "c \<noteq> CHR ''-''" "c \<noteq> CHR ''+''" "c \<noteq> CHR ''_''"
  using assms by (auto simp: decimal_char_def py_space_def Let_def)

lemma digit_groups_decimal:
  "s \<noteq> [] \<Longrightarrow> list_all decimal_char s \<Longrightarrow> digit_groups s"
  by (induction s rule: digit_groups.induct) (auto dest: decimal_char_props)

lemma strip_decimal:
  assumes "list_all decimal_char s"
  shows "strip s = s"
proof (cases s)
  case Nil
  then show ?thesis by (simp add: strip_def)
next
  case (Cons c cs)
  have a: "dropWhile py_space s = s"
    using assms Cons by (simp add: decimal_char_props)
  have "rev s \<noteq> []" using Cons by simp
  moreover have "list_all decimal_char (rev s)" using assms by (simp add: list_all_iff)
  ultimately have b: "dropWhile py_space (rev s) = rev s"
    by (cases "rev s") (auto simp: decimal_char_props)
  show ?thesis by (simp add: strip_def a b)
qed

lemma py_int_decimal:
  assumes "s \<noteq> []" "list_all decimal_char s" "length s \<le> int_max_str_digits"
  shows "py_int s = Inr (int (digits_value s))"
proof -
  have h: "decimal_char (hd s)" using assms by (cases s) auto
  have f: "filter decimal_char s = s" using assms(2) by (simp add: list_all_iff)
  show ?thesis
    using assms h decimal_char_props[OF h]
    by (simp add: py_int_def strip_decimal Let_def digit_groups_decimal f)
qed

lemma digit_lines_to_int_decimal:
  assumes "list_all (\<lambda>l. isdigit l \<longrightarrow> list_all decimal_char l \<and> length l \<le> int_max_str_digits) ls"
  shows "digit_lines_to_int ls =
           Inr (map (\<lambda>l. int (digits_value l)) (filter (\<lambda>l. l \<noteq> [] \<and> list_all decimal_char l) ls))"
  using assms
proof (induction ls)
  case Nil
  then show ?case by simp
next
  case (Cons l ls)
  show ?case
  proof (cases "isdigit l")
    case True
    with Cons.prems have d: "l \<noteq> []" "list_all decimal_char l" "length l \<le> int_max_str_digits"
      by (auto simp: isdigit_def)
    show ?thesis using Cons True d by (simp add: py_int_decimal)
  next
    case False
    then have "\<not> (l \<noteq> [] \<and> list_all decimal_char l)"
      by (auto simp: isdigit_def isdigit_char_def list_all_iff)
    with Cons False show ?thesis by simp
  qed
qed

lemma splitlines_from_newline_only:
  assumes "list_all (\<lambda>c. line_boundary c \<longrightarrow> c = CHR 0x0A) s"
  shows "filter (\<lambda>l. l \<noteq> []) (splitlines_from cur s) = filter (\<lambda>l. l \<noteq> []) (split_from cur s)"
  using assms
proof (induction cur s rule: splitlines_from.induct)
  case (1 cur)
  then show ?case by simp
next
  case (2 cur c)
  then show ?case by (auto simp: line_boundary_def)
next
  case (3 cur c d cs)
  have nb: "line_boundary c \<Longrightarrow> c = CHR 0x0A" using 3(4) by simp
  have rest: "list_all (\<lambda>c. line_boundary c \<longrightarrow> c = CHR 0x0A) (d # cs)" using 3(4) by simp
  show ?case
  proof (cases "line_boundary c")
    case True
    then have c: "c = CHR 0x0A" using nb by simp
    then show ?thesis using 3(2) rest True by simp
  next
    case False
    then have c: "c \<noteq> CHR 0x0A" "c \<noteq> CHR 0x0D" by (auto simp: line_boundary_def)
    then show ?thesis using 3(3) rest False by simp
  qed
qed

lemma run_ids_of_lines_nonempty:
  "run_ids_of_lines (filter (\<lambda>l. l \<noteq> []) ls) = run_ids_of_lines ls"
  by (simp add: run_ids_of_lines_def conj_commute cong: conj_cong)

subsection \<open>Formatting\<close>

lemma decimal_char_of_digit:
  assumes "0 \<le> m" "m < 10"
  shows "decimal_char (char_of (48 + m :: int))"
proof -
  have "(48 + m) mod 256 = 48 + m" using assms by simp
  then have "(of_char (char_of (48 + m)) :: int) = 48 + m" by simp
  then have "int (of_char (char_of (48 + m)) :: nat) = 48 + m"
    by (simp only: of_nat_of_char)
  then show ?thesis using assms by (simp add: decimal_char_def)
qed

lemma decimal_digits_digits:
  "0 \<le> n \<Longrightarrow> decimal_digits n \<noteq> [] \<and> list_all decimal_char (decimal_digits n)"
proof (induction n rule: decimal_digits.induct)
  case (1 n)
  show ?case
  proof (cases "n < 10")
    case True
    with 1(2) show ?thesis
      by (subst (1 2) decimal_digits.simps) (simp add: decimal_char_of_digit)
  next
    case False
    then have "0 \<le> n div 10" by simp
    with 1(1) False have ih: "list_all decimal_char (decimal_digits (n div 10))" by simp
    have "decimal_char (char_of (48 + n mod 10))" by (rule decimal_char_of_digit) simp_all
    with ih False show ?thesis
      by (subst (1 2) decimal_digits.simps) simp
  qed
qed

lemma decimal_digits_single:
  "0 \<le> n \<Longrightarrow> n < 10 \<Longrightarrow> decimal_digits n = [char_of (48 + n)]"
  by (subst decimal_digits.simps) simp

lemma round_half_even_nonneg: "0 \<le> q \<Longrightarrow> 0 \<le> round_half_even q"
proof -
  assume "0 \<le> q"
  then have "0 \<le> \<lfloor>q\<rfloor>" by simp
  then show ?thesis by (simp add: round_half_even_def Let_def)
qed

lemma pow2_pos: "0 < pow2 k"
  by (simp add: pow2_def)

lemma fl_nonneg: "0 \<le> q \<Longrightarrow> 0 \<le> fl q"
proof -
  assume q: "0 \<le> q"
  have "0 \<le> q * pow2 k" for k using q pow2_pos [of k] by simp
  then have r: "0 \<le> round_half_even (q * pow2 k)" for k by (rule round_half_even_nonneg)
  have "0 \<le> rat_of_int (round_half_even (q * pow2 k)) * pow2 j" for k j
    using r [of k] pow2_pos [of j] by (intro mult_nonneg_nonneg) simp_all
  then show ?thesis by (simp add: fl_def Let_def)
qed

text \<open>
  \<open>fl\<close> rounds to 53 significant bits: the binary exponent brackets the number, and the
  result is off by at most the \<open>2\<^sup>5\<^sup>3\<close>-th part of it.  So the float of line 202 is the
  exact percentage up to that, and the digits that \<open>format_1f\<close> prints read as a number
  at most 0.05 away from the float.
\<close>

lemma pow2_power_int: "pow2 k = 2 powi k"
  by (simp add: pow2_def power_int_def field_simps)

lemma pow2_add: "pow2 (a + b) = pow2 a * pow2 b"
  by (simp add: pow2_power_int power_int_add)

lemma bit_length_bounds:
  "0 < n \<Longrightarrow> 2 ^ nat (bit_length n - 1) \<le> n \<and> n < 2 ^ nat (bit_length n) \<and> 1 \<le> bit_length n"
proof (induction n rule: bit_length.induct)
  case (1 n)
  show ?case
  proof (cases "n = 1")
    case True
    then have "bit_length n = 1"
      by (simp add: bit_length.simps [of 1] bit_length.simps [of 0])
    with True show ?thesis by simp
  next
    case False
    with 1(2) have pos: "0 < n div 2" by simp
    with 1 have ih: "2 ^ nat (bit_length (n div 2) - 1) \<le> n div 2"
      "n div 2 < 2 ^ nat (bit_length (n div 2))" "1 \<le> bit_length (n div 2)"
      by simp_all
    have bl: "bit_length n = 1 + bit_length (n div 2)"
      using 1(2) by (subst bit_length.simps) simp
    define k where "k = nat (bit_length (n div 2) - 1)"
    have k: "nat (bit_length (n div 2)) = Suc k" using ih(3) by (simp add: k_def)
    have e1: "nat (bit_length n - 1) = Suc k" using bl k by simp
    have e2: "nat (bit_length n) = Suc (Suc k)" using bl k ih(3) by simp
    have "(2::int) * 2 ^ k \<le> n" using ih(1) unfolding k_def [symmetric] by linarith
    moreover have "n < 2 * (2 * 2 ^ k)" using ih(2) unfolding k by simp
    moreover have "1 \<le> bit_length n" using bl ih(3) by simp
    ultimately show ?thesis unfolding e1 e2 by simp
  qed
qed

lemma binary_exponent_bounds:
  assumes "0 < q"
  shows "pow2 (binary_exponent q) \<le> q \<and> q < pow2 (binary_exponent q + 1)"
proof -
  obtain a b where ab: "quotient_of q = (a, b)" by (cases "quotient_of q")
  then have b: "0 < b" and q: "q = of_int a / of_int b"
    by (simp_all add: quotient_of_denom_pos quotient_of_div)
  with assms have a: "0 < a" by (simp add: zero_less_divide_iff)
  define la where "la = bit_length a"
  define lb where "lb = bit_length b"
  from bit_length_bounds [OF a] have la: "2 ^ nat (la - 1) \<le> a" "a < 2 ^ nat la" "1 \<le> la"
    by (simp_all add: la_def)
  from bit_length_bounds [OF b] have lb: "2 ^ nat (lb - 1) \<le> b" "b < 2 ^ nat lb" "1 \<le> lb"
    by (simp_all add: lb_def)
  have ra: "pow2 (la - 1) \<le> of_int a" "of_int a < pow2 la"
  proof -
    have "pow2 (la - 1) = of_int (2 ^ nat (la - 1))" using la(3) by (simp add: pow2_def)
    also have "\<dots> \<le> of_int a" using la(1) by (simp only: of_int_le_iff)
    finally show "pow2 (la - 1) \<le> of_int a" .
    have "(of_int a :: rat) < of_int (2 ^ nat la)" using la(2) by (simp only: of_int_less_iff)
    also have "\<dots> = pow2 la" using la(3) by (simp add: pow2_def)
    finally show "of_int a < pow2 la" .
  qed
  have rb: "pow2 (lb - 1) \<le> of_int b" "of_int b < pow2 lb"
  proof -
    have "pow2 (lb - 1) = of_int (2 ^ nat (lb - 1))" using lb(3) by (simp add: pow2_def)
    also have "\<dots> \<le> of_int b" using lb(1) by (simp only: of_int_le_iff)
    finally show "pow2 (lb - 1) \<le> of_int b" .
    have "(of_int b :: rat) < of_int (2 ^ nat lb)" using lb(2) by (simp only: of_int_less_iff)
    also have "\<dots> = pow2 lb" using lb(3) by (simp add: pow2_def)
    finally show "of_int b < pow2 lb" .
  qed
  have bpos: "(0::rat) < of_int b" using b by simp
  have lower: "pow2 (la - lb - 1) \<le> q"
  proof -
    have "pow2 (la - lb - 1) * of_int b \<le> pow2 (la - lb - 1) * pow2 lb"
      using rb(2) pow2_pos [of "la - lb - 1"] by (intro mult_left_mono) simp_all
    also have "\<dots> = pow2 (la - 1)" by (simp add: pow2_add [symmetric])
    also have "\<dots> \<le> of_int a" by (rule ra(1))
    finally show ?thesis using bpos by (simp add: q pos_le_divide_eq)
  qed
  have upper: "q < pow2 (la - lb + 1)"
  proof -
    have "of_int a < pow2 la" by (rule ra(2))
    also have "\<dots> = pow2 (la - lb + 1) * pow2 (lb - 1)" by (simp add: pow2_add [symmetric])
    also have "\<dots> \<le> pow2 (la - lb + 1) * of_int b"
      using rb(1) pow2_pos [of "la - lb + 1"] by (intro mult_left_mono) simp_all
    finally show ?thesis using bpos by (simp add: q pos_divide_less_eq)
  qed
  have be: "binary_exponent q = (if pow2 (la - lb) \<le> q then la - lb else la - lb - 1)"
    by (simp add: binary_exponent_def ab la_def lb_def Let_def)
  show ?thesis
  proof (cases "pow2 (la - lb) \<le> q")
    case True
    with be upper show ?thesis by simp
  next
    case False
    with be lower show ?thesis by simp
  qed
qed

lemma round_half_even_near: "\<bar>of_int (round_half_even x) - x\<bar> \<le> 1 / 2"
proof -
  have "of_int \<lfloor>x\<rfloor> \<le> x" "x < of_int \<lfloor>x\<rfloor> + 1" by linarith+
  then show ?thesis by (auto simp: round_half_even_def Let_def abs_le_iff not_less)
qed

lemma fl_error:
  assumes "0 < q"
  shows "\<bar>fl q - q\<bar> \<le> q / 2 ^ 53"
proof -
  define e where "e = binary_exponent q"
  have aq: "\<bar>q\<bar> = q" using assms by simp
  from binary_exponent_bounds [OF assms] have lo: "pow2 e \<le> q" by (simp add: e_def)
  define m where "m = round_half_even (q * pow2 (52 - e))"
  have f: "fl q = of_int m * pow2 (e - 52)"
    using assms by (simp add: fl_def aq e_def [symmetric] m_def Let_def)
  have pp: "pow2 (52 - e) * pow2 (e - 52) = 1"
    by (simp add: pow2_add [symmetric] pow2_def)
  have pos: "0 < pow2 (e - 52)" by (rule pow2_pos)
  have "fl q - q = (of_int m - q * pow2 (52 - e)) * pow2 (e - 52)"
    using pp by (simp add: f algebra_simps)
  then have "\<bar>fl q - q\<bar> = \<bar>of_int m - q * pow2 (52 - e)\<bar> * pow2 (e - 52)"
    using pos by (simp add: abs_mult)
  also have "\<dots> \<le> 1 / 2 * pow2 (e - 52)"
    using round_half_even_near [of "q * pow2 (52 - e)"] pos
    by (intro mult_right_mono) (simp_all add: m_def)
  also have "\<dots> = pow2 e / 2 ^ 53"
  proof -
    have "pow2 (e - 52) = pow2 e * pow2 (- 52)" using pow2_add [of e "- 52"] by simp
    then show ?thesis by (simp add: pow2_def)
  qed
  also have "\<dots> \<le> q / 2 ^ 53" using lo by (simp add: divide_right_mono)
  finally show ?thesis .
qed

lemma percentage_error:
  assumes "0 \<le> x"
  shows "\<bar>py_float_mul (fl x) 100 - 100 * x\<bar> \<le> 300 * x / 2 ^ 53"
proof (cases "x = 0")
  case True
  then show ?thesis by (simp add: py_float_mul_def fl_def)
next
  case False
  with assms have x: "0 < x" by simp
  define u :: rat where "u = 1 / 2 ^ 53"
  have u: "0 < u" "u \<le> 1" by (simp_all add: u_def)
  define y where "y = fl x"
  have yx: "\<bar>y - x\<bar> \<le> x * u" using fl_error [OF x] by (simp add: y_def u_def)
  then have y_le: "y \<le> x + x * u" and y_ge: "x - x * u \<le> y" by (simp_all add: abs_le_iff)
  have "0 < x * (1 - u)"
  proof -
    have "u < 1" by (simp add: u_def)
    with x show ?thesis by simp
  qed
  then have y: "0 < y" using y_ge by (simp add: algebra_simps)
  define p where "p = fl (y * 100)"
  have "\<bar>p - y * 100\<bar> \<le> y * 100 * u"
    using fl_error [of "y * 100"] y by (simp add: p_def u_def)
  also have "\<dots> \<le> (x + x * u) * 100 * u"
    using y_le u(1) by (intro mult_right_mono) simp_all
  finally have py: "\<bar>p - y * 100\<bar> \<le> (x + x * u) * 100 * u" .
  have xu: "x * u * u \<le> x * u"
  proof -
    have "x * u * u \<le> x * u * 1" using x u by (intro mult_left_mono) simp_all
    then show ?thesis by simp
  qed
  have "p - 100 * x = (p - y * 100) + 100 * (y - x)" by (simp add: algebra_simps)
  then have "\<bar>p - 100 * x\<bar> \<le> \<bar>p - y * 100\<bar> + \<bar>100 * (y - x)\<bar>"
    by (simp only: abs_triangle_ineq)
  moreover have "\<bar>100 * (y - x)\<bar> = 100 * \<bar>y - x\<bar>" by (subst abs_mult) simp
  ultimately have "\<bar>p - 100 * x\<bar> \<le> \<bar>p - y * 100\<bar> + 100 * \<bar>y - x\<bar>"
    by (simp only:)
  also have "\<dots> \<le> (x + x * u) * 100 * u + 100 * (x * u)"
    by (intro add_mono py mult_left_mono yx) simp
  also have "\<dots> = 200 * (x * u) + 100 * (x * u * u)" by (simp add: algebra_simps)
  also have "\<dots> \<le> 200 * (x * u) + 100 * (x * u)"
    using mult_left_mono [OF xu, of 100] by (simp add: ac_simps)
  also have "\<dots> = 300 * (x * u)" by simp
  finally show ?thesis by (simp add: p_def y_def py_float_mul_def u_def)
qed

lemma digits_value_snoc: "digits_value (s @ [c]) = 10 * digits_value s + digit_value c"
  by (simp add: digits_value_def)

lemma digit_value_char_of:
  assumes "0 \<le> m" "m < 10"
  shows "digit_value (char_of (48 + m :: int)) = nat m"
proof -
  have "(48 + m) mod 256 = 48 + m" using assms by simp
  then have "(of_char (char_of (48 + m)) :: int) = 48 + m" by simp
  then have "int (of_char (char_of (48 + m)) :: nat) = 48 + m"
    by (simp only: of_nat_of_char)
  then show ?thesis using assms by (simp add: digit_value_def)
qed

lemma digits_value_decimal_digits:
  "0 \<le> n \<Longrightarrow> digits_value (decimal_digits n) = nat n"
proof (induction n rule: decimal_digits.induct)
  case (1 n)
  show ?case
  proof (cases "n < 10")
    case True
    with 1(2) show ?thesis
      by (subst decimal_digits.simps) (simp add: digits_value_def digit_value_char_of)
  next
    case False
    then have "0 \<le> n div 10" by simp
    with 1(1) False have ih: "digits_value (decimal_digits (n div 10)) = nat (n div 10)" by simp
    have d: "digit_value (char_of (48 + n mod 10)) = nat (n mod 10)"
      by (rule digit_value_char_of) simp_all
    have "10 * nat (n div 10) + nat (n mod 10) = nat n"
      using 1(2) by (simp add: nat_div_distrib nat_mod_distrib)
    with False ih d show ?thesis
      by (subst decimal_digits.simps) (simp add: digits_value_snoc)
  qed
qed

lemma char_of_48: "char_of (48::int) = CHR ''0''"
proof -
  have "(of_char (char_of (48::int)) :: int) = of_char (CHR ''0'')" by simp
  then show ?thesis by (simp only: of_char_eq_iff)
qed

lemma char_of_digit_zero:
  assumes "0 \<le> m" "m < 10"
  shows "(char_of (48 + m :: int) = CHR ''0'') = (m = 0)"
proof -
  have "(48 + m) mod 256 = 48 + m" using assms by simp
  then have a: "(of_char (char_of (48 + m)) :: int) = 48 + m" by simp
  show ?thesis
  proof
    assume "char_of (48 + m) = CHR ''0''"
    then have "(of_char (char_of (48 + m)) :: int) = of_char (CHR ''0'')" by simp
    with a show "m = 0" by simp
  next
    assume "m = 0"
    then show "char_of (48 + m) = CHR ''0''" by (simp add: char_of_48)
  qed
qed

lemma decimal_digits_zero: "decimal_digits 0 = ''0''"
  by (subst decimal_digits.simps) (simp add: char_of_48)

lemma decimal_digits_no_leading_zero: "0 < n \<Longrightarrow> hd (decimal_digits n) \<noteq> CHR ''0''"
proof (induction n rule: decimal_digits.induct)
  case (1 n)
  show ?case
  proof (cases "n < 10")
    case True
    with 1(2) show ?thesis by (subst decimal_digits.simps) (simp add: char_of_digit_zero)
  next
    case False
    then have pos: "0 < n div 10" by simp
    with 1(1) False have ih: "hd (decimal_digits (n div 10)) \<noteq> CHR ''0''" by simp
    have ne: "decimal_digits (n div 10) \<noteq> []"
      using decimal_digits_digits [of "n div 10"] pos by simp
    with ih False show ?thesis by (subst decimal_digits.simps) simp
  qed
qed

lemma decimal_digits_canonical:
  "0 \<le> n \<Longrightarrow> decimal_digits n = ''0'' \<or> hd (decimal_digits n) \<noteq> CHR ''0''"
  by (cases "n = 0") (simp_all add: decimal_digits_zero decimal_digits_no_leading_zero)

text \<open>
  The count of a cell is the decimal numeral of the number, without sign and without
  leading zeros.
\<close>

lemma py_str_reads:
  "py_str (int n) \<noteq> [] \<and> list_all decimal_char (py_str (int n)) \<and>
   digits_value (py_str (int n)) = n \<and>
   (py_str (int n) = ''0'' \<or> hd (py_str (int n)) \<noteq> CHR ''0'')"
  using decimal_digits_digits [of "int n"] digits_value_decimal_digits [of "int n"]
    decimal_digits_canonical [of "int n"]
  by (simp add: py_str_def)

lemma format_1f_reads:
  assumes "0 \<le> x"
  shows "\<exists>ip d. format_1f x = ip @ ''.'' @ [d] \<and> ip \<noteq> [] \<and> list_all decimal_char ip \<and>
           decimal_char d \<and> (ip = ''0'' \<or> hd ip \<noteq> CHR ''0'') \<and>
           \<bar>of_nat (digits_value ip) + of_nat (digit_value d) / 10 - x\<bar> \<le> 1 / 20"
proof -
  define k where "k = round_half_even (x * 10)"
  have k: "0 \<le> k" unfolding k_def using assms by (intro round_half_even_nonneg) simp
  have a: "\<bar>x\<bar> = x" using assms by simp
  have f: "format_1f x = decimal_digits (k div 10) @ ''.'' @ [char_of (48 + k mod 10)]"
    using assms unfolding format_1f_def a k_def [symmetric] Let_def
    by (simp add: decimal_digits_single)
  have kd: "0 \<le> k div 10" using k by simp
  have v1: "digits_value (decimal_digits (k div 10)) = nat (k div 10)"
    by (rule digits_value_decimal_digits [OF kd])
  have v2: "digit_value (char_of (48 + k mod 10)) = nat (k mod 10)"
    by (rule digit_value_char_of) simp_all
  have n1: "(of_nat (nat (k div 10)) :: rat) = of_int (k div 10)" using kd by simp
  have n2: "(of_nat (nat (k mod 10)) :: rat) = of_int (k mod 10)" by simp
  have "(of_int (k div 10 * 10 + k mod 10) :: rat) = of_int k" by simp
  then have "(of_int (k div 10) :: rat) * 10 + of_int (k mod 10) = of_int k"
    by (simp only: of_int_add of_int_mult of_int_numeral)
  then have val: "(of_nat (nat (k div 10)) :: rat) + of_nat (nat (k mod 10)) / 10 = of_int k / 10"
    unfolding n1 n2 by (simp add: field_simps)
  have "\<bar>of_int k - x * 10\<bar> \<le> 1 / 2" unfolding k_def by (rule round_half_even_near)
  moreover have "of_int k / 10 - x = (of_int k - x * 10) / 10" by (simp add: field_simps)
  ultimately have "\<bar>of_int k / 10 - x\<bar> \<le> 1 / 20" by (simp only: abs_divide)
  then have near: "\<bar>of_nat (nat (k div 10)) + of_nat (nat (k mod 10)) / 10 - x\<bar> \<le> 1 / 20"
    by (simp only: val)
  from decimal_digits_digits [OF kd] decimal_char_of_digit [of "k mod 10"]
    decimal_digits_canonical [OF kd]
  have "decimal_digits (k div 10) \<noteq> [] \<and> list_all decimal_char (decimal_digits (k div 10)) \<and>
        decimal_char (char_of (48 + k mod 10)) \<and>
        (decimal_digits (k div 10) = ''0'' \<or> hd (decimal_digits (k div 10)) \<noteq> CHR ''0'')"
    by simp
  with f near v1 v2 show ?thesis by (intro exI [of _ "decimal_digits (k div 10)"] exI [of _ "char_of (48 + k mod 10)"]) simp
qed

subsection \<open>One context\<close>

lemma availability_cell_text: "t \<noteq> 0 \<Longrightarrow> availability n t = Inr (cell_text n t)"
  by (simp add: availability_def py_truediv_def cell_text_def)

lemma location_cells_with_cells:
  assumes "run_ids \<noteq> []"
  shows "location_cells db run_ids dt h locs doc =
           (concat (map (\<lambda>l. fst (get_runs_from_db db run_ids dt h (Some l))) locs),
            Inr (with_cells db run_ids dt h locs doc))"
  using assms
proof (induction locs arbitrary: doc)
  case Nil
  then show ?case by (simp add: with_cells_def)
next
  case (Cons l locs)
  obtain ev rl where g: "get_runs_from_db db run_ids dt h (Some l) = (ev, rl)"
    by (cases "get_runs_from_db db run_ids dt h (Some l)")
  have a: "availability (int (length rl)) (int (length run_ids)) =
             Inr (cell_text (int (length rl)) (int (length run_ids)))"
    using Cons.prems by (simp add: availability_cell_text)
  show ?case
    using Cons.IH [OF Cons.prems] g a
    by (simp add: with_cells_def matched_def)
qed

text \<open>The query that \<open>get_runs_from_db\<close> sends for a location, written out.\<close>

lemma get_runs_from_db_at:
  "get_runs_from_db db run_ids dt h (Some l) =
     ([Find ''runs''
         [(''number'', JDict [(''$in'', JList (map JInt run_ids))]),
          (''data'', JDict [(''$elemMatch'',
             JDict ([(''type'', JStr dt), (''meta.lineage_hash'', h)] @
                    (if l = [] then [] else [(''location'', JStr l)])))])]
         [(''number'', JInt 1)]],
      map number (runs_find db
         [(''number'', JDict [(''$in'', JList (map JInt run_ids))]),
          (''data'', JDict [(''$elemMatch'',
             JDict ([(''type'', JStr dt), (''meta.lineage_hash'', h)] @
                    (if l = [] then [] else [(''location'', JStr l)])))])]
         [(''number'', JInt 1)]))"
  by (simp add: get_runs_from_db_def truthy_def Let_def)

lemma length_distinct_numbers:
  assumes "distinct xs" and "set xs \<subseteq> S"
  shows "length xs = card {i \<in> S. i \<in> set xs}"
proof -
  from assms(2) have "{i \<in> S. i \<in> set xs} = set xs" by auto
  with assms(1) show ?thesis by (simp add: distinct_card)
qed

lemma map_of_foldl_update:
  "map_of (foldl (\<lambda>d l. AList.update l (f l) d) doc locs) k =
     (if k \<in> set locs then Some (f k) else map_of doc k)"
proof (induction locs arbitrary: doc)
  case Nil
  then show ?case by simp
next
  case (Cons l locs)
  show ?case by (simp add: Cons.IH update_conv')
qed

lemma map_of_with_cells:
  "map_of (with_cells db run_ids dt h locs doc) k =
     (if k \<in> set locs
      then Some (JStr (cell_text (matched db run_ids dt h k) (int (length run_ids))))
      else map_of doc k)"
  unfolding with_cells_def by (rule map_of_foldl_update)

lemma get_lineae_hash_from_version_globals:
  "global_data_type g' = global_data_type g \<Longrightarrow>
     get_lineae_hash_from_version g' db c vs = get_lineae_hash_from_version g db c vs"
  by (simp add: get_lineae_hash_from_version_def)

lemma resolve_lineage_globals:
  assumes "global_data_type g' = global_data_type g"
  shows "resolve_lineage g' db c env dt = resolve_lineage g db c env dt"
  unfolding resolve_lineage_def
  by (auto simp: get_lineae_hash_from_version_globals [OF assms]
        split: prod.splits option.splits sum.splits)

lemma new_doc_three_versions:
  "new_doc c env run_ids h
     (strip_version_suffix [(''straxen_version'', a), (''strax_version'', b), (''cutax_version'', d)]) =
   version_row c env run_ids h a b d"
  by (simp add: new_doc_def strip_version_suffix_def version_row_def)

lemma ENV_VERSIONS_shape:
  assumes "map_of ENV_VERSIONS c = Some vs"
  shows "\<exists>a b d. vs = [(''straxen_version'', JStr a), (''strax_version'', JStr b),
                       (''cutax_version'', JStr d)]"
  using assms by (auto simp: ENV_VERSIONS_def split: if_splits)

lemma resolve_lineage_primary:
  assumes "snd (get_lineage_hash db c env dt) = Inr (h, v)" and "jv_truthy h"
  shows "resolve_lineage g db c env dt = (fst (get_lineage_hash db c env dt), Inr (h, v))"
proof -
  obtain ev r where p: "get_lineage_hash db c env dt = (ev, r)"
    by (cases "get_lineage_hash db c env dt")
  with assms show ?thesis by (simp add: resolve_lineage_def)
qed

lemma resolve_lineage_primary_raises:
  assumes "snd (get_lineage_hash db c env dt) = Inl e"
  shows "snd (resolve_lineage g db c env dt) = Inl e"
proof -
  obtain ev r where p: "get_lineage_hash db c env dt = (ev, r)"
    by (cases "get_lineage_hash db c env dt")
  with assms show ?thesis by (simp add: resolve_lineage_def)
qed

lemma resolve_lineage_no_table:
  assumes "snd (get_lineage_hash db c env dt) = Inr (h0, v0)" and "\<not> jv_truthy h0"
    and "map_of ENV_VERSIONS c = None"
  shows "snd (resolve_lineage g db c env dt) = Inl KeyError"
proof -
  obtain ev r where p: "get_lineage_hash db c env dt = (ev, r)"
    by (cases "get_lineage_hash db c env dt")
  with assms show ?thesis by (simp add: resolve_lineage_def)
qed

lemma resolve_lineage_fallback:
  assumes "snd (get_lineage_hash db c env dt) = Inr (h0, v0)" and "\<not> jv_truthy h0"
    and "map_of ENV_VERSIONS c = Some v"
  shows "resolve_lineage g db c env dt =
           (fst (get_lineage_hash db c env dt) @ fst (get_lineae_hash_from_version g db c v),
            case snd (get_lineae_hash_from_version g db c v) of
              Inl e \<Rightarrow> Inl e | Inr h \<Rightarrow> Inr (h, v))"
proof -
  obtain ev r where p: "get_lineage_hash db c env dt = (ev, r)"
    by (cases "get_lineage_hash db c env dt")
  obtain ev' r' where f: "get_lineae_hash_from_version g db c v = (ev', r')"
    by (cases "get_lineae_hash_from_version g db c v")
  with assms p show ?thesis by (cases r') (simp_all add: resolve_lineage_def)
qed

lemma resolve_lineage_by_fallback:
  assumes "snd (get_lineage_hash db c env dt) = Inr (h0, v0)" and "\<not> jv_truthy h0"
    and "map_of ENV_VERSIONS c = Some v"
    and "snd (get_lineae_hash_from_version g db c v) = Inr h"
  shows "snd (resolve_lineage g db c env dt) = Inr (h, v)"
  using assms(4) by (simp add: resolve_lineage_fallback [OF assms(1,2,3)])

lemma get_lineage_hash_found:
  assumes "contexts_find_one db [(''name'', JStr c), (''tag'', JStr env)]
             [(''hashes.'' @ dt, JInt 1), (''straxen_version'', JInt 1),
              (''strax_version'', JInt 1), (''cutax_version'', JInt 1)] = Some doc"
    and "map_of doc ''hashes'' = Some (JDict hs)"
  shows "snd (get_lineage_hash db c env dt) =
           Inr (case map_of hs dt of None \<Rightarrow> JNone | Some h \<Rightarrow> h,
                [(''straxen_version'', case map_of doc ''straxen_version'' of
                                         None \<Rightarrow> JStr ''UNKNOWN'' | Some s \<Rightarrow> s),
                 (''strax_version'', case map_of doc ''strax_version'' of
                                         None \<Rightarrow> JStr ''UNKNOWN'' | Some s \<Rightarrow> s),
                 (''cutax_version'', case map_of doc ''cutax_version'' of
                                         None \<Rightarrow> JStr ''UNKNOWN'' | Some s \<Rightarrow> s)])"
proof -
  from assms(2) have "doc \<noteq> []" by auto
  with assms show ?thesis by (simp add: get_lineage_hash_def Let_def)
qed

lemma RECOMMENDED_functional:
  assumes "(c, env) \<in> set RECOMMENDED" and "(c, env') \<in> set RECOMMENDED"
  shows "env' = env"
proof -
  have "distinct (map fst RECOMMENDED)" by (simp add: RECOMMENDED_def)
  from map_of_is_SomeI [OF this assms(1)] map_of_is_SomeI [OF this assms(2)]
  show ?thesis by simp
qed

lemma fst_get_lineage_hash:
  "fst (get_lineage_hash db c env dt) =
     [FindOne ''contexts'' [(''name'', JStr c), (''tag'', JStr env)]
        [(''hashes.'' @ dt, JInt 1), (''straxen_version'', JInt 1),
         (''strax_version'', JInt 1), (''cutax_version'', JInt 1)]]"
  by (simp add: get_lineage_hash_def Let_def split: option.splits sum.splits)

lemma fst_get_lineae_hash_from_version:
  "fst (get_lineae_hash_from_version g db c vs) =
     (case global_data_type g of
        None \<Rightarrow> []
      | Some d \<Rightarrow>
          [FindOne ''contexts'' (AList.update ''name'' (JStr c) vs) [(''hashes.'' @ d, JInt 1)]])"
  by (simp add: get_lineae_hash_from_version_def Let_def split: option.splits)

lemma get_lineae_hash_from_version_names:
  assumes "e \<in> set (fst (get_lineae_hash_from_version g db c vs))"
  shows "\<exists>q p. e = FindOne ''contexts'' q p \<and> map_of q ''name'' = Some (JStr c)"
proof (cases "global_data_type g")
  case None
  with assms show ?thesis by (simp add: get_lineae_hash_from_version_def)
next
  case (Some d)
  let ?q = "AList.update ''name'' (JStr c) vs"
  from assms Some have "e = FindOne ''contexts'' ?q [(''hashes.'' @ d, JInt 1)]"
    by (simp add: fst_get_lineae_hash_from_version)
  moreover have "map_of ?q ''name'' = Some (JStr c)" by (simp add: update_conv')
  ultimately show ?thesis by blast
qed

lemma resolve_lineage_names:
  assumes "e \<in> set (fst (resolve_lineage g db c env dt))"
  shows "\<exists>q p. e = FindOne ''contexts'' q p \<and> map_of q ''name'' = Some (JStr c)"
proof -
  obtain ev res where p: "get_lineage_hash db c env dt = (ev, res)"
    by (cases "get_lineage_hash db c env dt")
  with fst_get_lineage_hash [of db c env dt]
  have ev: "\<forall>e \<in> set ev. \<exists>q p. e = FindOne ''contexts'' q p \<and> map_of q ''name'' = Some (JStr c)"
    by simp
  show ?thesis
  proof (cases res)
    case (Inl e')
    with assms p ev show ?thesis by (simp add: resolve_lineage_def)
  next
    case (Inr hv)
    obtain h v where hv: "hv = (h, v)" by (cases hv)
    show ?thesis
    proof (cases "jv_truthy h")
      case True
      with assms p ev Inr hv show ?thesis by (simp add: resolve_lineage_def)
    next
      case False
      show ?thesis
      proof (cases "map_of ENV_VERSIONS c")
        case None
        with assms p ev False Inr hv show ?thesis by (simp add: resolve_lineage_def)
      next
        case (Some vs)
        obtain ev' r where f: "get_lineae_hash_from_version g db c vs = (ev', r)"
          by (cases "get_lineae_hash_from_version g db c vs")
        with assms p False Some Inr hv have "e \<in> set ev \<or> e \<in> set ev'"
          by (cases r) (auto simp: resolve_lineage_def)
        with ev get_lineae_hash_from_version_names [of e g db c vs] f show ?thesis by auto
      qed
    qed
  qed
qed

subsection \<open>The loop over the recommended contexts\<close>

lemma check_contexts_step:
  assumes "run_ids \<noteq> []"
  shows "check_contexts g db dt run_ids x ((c, env) # rest) docs =
     (case resolve_lineage g db c env dt of
        (ev, Inl e) \<Rightarrow> (g, ev, Inl e)
      | (ev, Inr (h, v)) \<Rightarrow>
          (case check_contexts (next_globals g x) db dt run_ids x rest
                  (if jv_truthy h then docs @ [context_row g db dt run_ids x c env h v] else docs) of
             (g'', ev'', r) \<Rightarrow> (g'', ev @ context_events g db dt run_ids x c env h @ ev'', r)))"
proof -
  obtain ev res where r: "resolve_lineage g db c env dt = (ev, res)"
    by (cases "resolve_lineage g db c env dt")
  show ?thesis
  proof (cases res)
    case (Inl e)
    with r show ?thesis by simp
  next
    case (Inr hv)
    obtain h v where hv: "hv = (h, v)" by (cases hv)
    show ?thesis
      using r Inr hv
      by (simp add: location_cells_with_cells [OF assms] next_globals_def [symmetric]
            context_row_def context_events_def Let_def split: prod.splits)
  qed
qed

declare check_contexts.simps(2) [simp del]

lemma used_locations_next [simp]:
  "used_locations (next_globals g x) x = used_locations g x"
  by (auto simp: used_locations_def next_globals_def)

lemma set_LOCATIONS_next:
  "set (LOCATIONS (next_globals g x)) = used_locations g x"
  by (auto simp: used_locations_def next_globals_def)

lemma global_data_type_next [simp]:
  "global_data_type (next_globals g x) = global_data_type g"
  by (simp add: next_globals_def)

lemma SCIENCE_RUNS_next [simp]:
  "SCIENCE_RUNS (next_globals g x) = SCIENCE_RUNS g"
  by (simp add: next_globals_def)

lemma resolve_lineage_next [simp]:
  "resolve_lineage (next_globals g x) db c env dt = resolve_lineage g db c env dt"
  by (rule resolve_lineage_globals) simp

lemma resolved_row_next:
  "resolved_row (next_globals g x) db dt run_ids x cs r = resolved_row g db dt run_ids x cs r"
  by (simp add: resolved_row_def)

lemma resolved_row_Cons:
  "resolved_row g db dt run_ids x cs r \<Longrightarrow> resolved_row g db dt run_ids x (p # cs) r"
  unfolding resolved_row_def by (elim exE conjE) (intro exI conjI, auto)

lemma resolved_row_context_row:
  assumes "snd (resolve_lineage g db c env dt) = Inr (h, v)" and "jv_truthy h"
  shows "resolved_row g db dt run_ids x ((c, env) # cs) (context_row g db dt run_ids x c env h v)"
  unfolding resolved_row_def
  apply (rule exI [of _ c], rule exI [of _ env], rule exI [of _ h], rule exI [of _ v])
  apply (rule exI [of _ "LOCATIONS (next_globals g x)"])
  using assms by (simp add: context_row_def set_LOCATIONS_next)

text \<open>Every row of a report belongs to a recommended context whose lineage hash was resolved.\<close>

lemma check_contexts_rows:
  assumes "check_contexts g db dt run_ids x cs docs = (g', evs, Inr rows)"
    and "run_ids \<noteq> []"
  shows "\<exists>new. rows = docs @ new \<and> list_all (resolved_row g db dt run_ids x cs) new"
  using assms(1)
proof (induction cs arbitrary: g docs g' evs rows)
  case Nil
  then show ?case by simp
next
  case (Cons p cs)
  obtain c env where p: "p = (c, env)" by (cases p)
  obtain ev res where r: "resolve_lineage g db c env dt = (ev, res)"
    by (cases "resolve_lineage g db c env dt")
  from Cons.prems p r obtain h v where res: "res = Inr (h, v)"
    by (cases res) (auto simp: check_contexts_step [OF assms(2)])
  let ?docs = "if jv_truthy h then docs @ [context_row g db dt run_ids x c env h v] else docs"
  obtain g2 ev2 r2 where rec: "check_contexts (next_globals g x) db dt run_ids x cs ?docs = (g2, ev2, r2)"
    by (cases "check_contexts (next_globals g x) db dt run_ids x cs ?docs")
  with Cons.prems p r res have r2: "r2 = Inr rows"
    by (simp add: check_contexts_step [OF assms(2)])
  from Cons.IH [OF rec [unfolded r2]] obtain new where
    new: "rows = ?docs @ new"
    and all: "list_all (resolved_row (next_globals g x) db dt run_ids x cs) new"
    by blast
  have all': "list_all (resolved_row g db dt run_ids x (p # cs)) new"
    using all by (simp add: resolved_row_next list_all_iff resolved_row_Cons)
  show ?case
  proof (cases "jv_truthy h")
    case False
    with new all' show ?thesis by auto
  next
    case True
    have row: "resolved_row g db dt run_ids x (p # cs) (context_row g db dt run_ids x c env h v)"
      unfolding p using r res True by (intro resolved_row_context_row) simp_all
    have "rows = docs @ (context_row g db dt run_ids x c env h v # new)"
      using new True by simp
    moreover have "list_all (resolved_row g db dt run_ids x (p # cs))
                     (context_row g db dt run_ids x c env h v # new)"
      using row all' by simp
    ultimately show ?thesis by blast
  qed
qed

lemma check_contexts_Cons_cases:
  assumes "check_contexts g db dt run_ids x ((c, env) # cs) docs = (g', evs, res)"
    and "run_ids \<noteq> []"
  obtains (raise) ev e where
      "resolve_lineage g db c env dt = (ev, Inl e)" "g' = g" "evs = ev" "res = Inl e"
  | (continue) ev h v evs' where
      "resolve_lineage g db c env dt = (ev, Inr (h, v))"
      "check_contexts (next_globals g x) db dt run_ids x cs
         (if jv_truthy h then docs @ [context_row g db dt run_ids x c env h v] else docs) =
       (g', evs', res)"
      "evs = ev @ context_events g db dt run_ids x c env h @ evs'"
proof -
  obtain ev r where r: "resolve_lineage g db c env dt = (ev, r)"
    by (cases "resolve_lineage g db c env dt")
  show ?thesis
  proof (cases r)
    case (Inl e)
    with assms r have "g' = g" "evs = ev" "res = Inl e"
      by (simp_all add: check_contexts_step [OF assms(2)])
    with r Inl raise show ?thesis by blast
  next
    case (Inr hv)
    obtain h v where hv: "hv = (h, v)" by (cases hv)
    let ?docs = "if jv_truthy h then docs @ [context_row g db dt run_ids x c env h v] else docs"
    obtain g2 ev2 r2 where rec:
      "check_contexts (next_globals g x) db dt run_ids x cs ?docs = (g2, ev2, r2)"
      by (cases "check_contexts (next_globals g x) db dt run_ids x cs ?docs")
    with assms r Inr hv have "g2 = g'" "r2 = res" "evs = ev @ context_events g db dt run_ids x c env h @ ev2"
      by (simp_all add: check_contexts_step [OF assms(2)])
    with r Inr hv rec continue show ?thesis by blast
  qed
qed

text \<open>A report is returned only when the lineage of every context was looked up without a raise.\<close>

lemma check_contexts_all_resolved:
  assumes "check_contexts g db dt run_ids x cs docs = (g', evs, Inr rows)"
    and "run_ids \<noteq> []" and "(c, env) \<in> set cs"
  shows "\<exists>hv. snd (resolve_lineage g db c env dt) = Inr hv"
  using assms(1,3)
proof (induction cs arbitrary: g docs g' evs)
  case Nil
  then show ?case by simp
next
  case (Cons p cs)
  obtain c' env' where p: "p = (c', env')" by (cases p)
  from Cons.prems(1) [unfolded p] assms(2) show ?case
  proof (cases rule: check_contexts_Cons_cases)
    case (raise ev e)
    then show ?thesis by simp
  next
    case (continue ev h v evs')
    show ?thesis
    proof (cases "(c, env) = p")
      case True
      with continue(1) p show ?thesis by simp
    next
      case False
      with Cons.prems(2) have "(c, env) \<in> set cs" by simp
      from Cons.IH [OF continue(2) this] show ?thesis by simp
    qed
  qed
qed

text \<open>The globals after the loop.\<close>

lemma check_contexts_frame:
  assumes "check_contexts g db dt run_ids x cs docs = (g', evs, res)" and "run_ids \<noteq> []"
  shows "SCIENCE_RUNS g' = SCIENCE_RUNS g \<and> global_data_type g' = global_data_type g"
  using assms(1)
proof (induction cs arbitrary: g docs evs)
  case Nil
  then show ?case by simp
next
  case (Cons p cs)
  obtain c env where p: "p = (c, env)" by (cases p)
  from Cons.prems(1) [unfolded p] assms(2) show ?case
  proof (cases rule: check_contexts_Cons_cases)
    case (raise ev e)
    then show ?thesis by simp
  next
    case (continue ev h v evs')
    from Cons.IH [OF continue(2)] show ?thesis by simp
  qed
qed

lemma check_contexts_LOCATIONS:
  assumes "check_contexts g db dt run_ids x cs docs = (g', evs, Inr rows)" and "run_ids \<noteq> []"
  shows "LOCATIONS g' =
           LOCATIONS g @ (if truthy x then replicate (length cs) (the x) else [])"
  using assms(1)
proof (induction cs arbitrary: g docs evs)
  case Nil
  then show ?case by simp
next
  case (Cons p cs)
  obtain c env where p: "p = (c, env)" by (cases p)
  from Cons.prems(1) [unfolded p] assms(2) show ?case
  proof (cases rule: check_contexts_Cons_cases)
    case (raise ev e)
    then show ?thesis by simp
  next
    case (continue ev h v evs')
    from Cons.IH [OF continue(2)] show ?thesis
      by (simp add: next_globals_def replicate_app_Cons_same)
  qed
qed

text \<open>Where the events of the loop come from.\<close>

lemma context_events_kind:
  assumes "e \<in> set (context_events g db dt run_ids x c env h)"
  shows "(\<exists>q p. e = Find ''runs'' q p) \<or> (\<exists>s. e = Printed s)"
  using assms by (auto simp: context_events_def get_runs_from_db_def Let_def split: if_splits)

lemma check_contexts_events:
  assumes "check_contexts g db dt run_ids x cs docs = (g', evs, res)" and "run_ids \<noteq> []"
    and "e \<in> set evs"
  shows "(\<exists>c env. (c, env) \<in> set cs \<and> e \<in> set (fst (resolve_lineage g db c env dt))) \<or>
         (\<exists>q p. e = Find ''runs'' q p) \<or> (\<exists>s. e = Printed s)"
  using assms(1,3)
proof (induction cs arbitrary: g docs evs)
  case Nil
  then show ?case by simp
next
  case (Cons p cs)
  obtain c env where p: "p = (c, env)" by (cases p)
  from Cons.prems(1) [unfolded p] assms(2) show ?case
  proof (cases rule: check_contexts_Cons_cases)
    case (raise ev e')
    with Cons.prems(2) p show ?thesis by force
  next
    case (continue ev h v evs')
    from Cons.prems(2) continue(3)
    consider "e \<in> set ev" | "e \<in> set (context_events g db dt run_ids x c env h)" | "e \<in> set evs'"
      by auto
    then show ?thesis
    proof cases
      case 1
      with continue(1) p show ?thesis by force
    next
      case 2
      from context_events_kind [OF this] show ?thesis by blast
    next
      case 3
      from Cons.IH [OF continue(2) this] show ?thesis by simp blast
    qed
  qed
qed

text \<open>Every context whose lineage hash was resolved has its row in the report.\<close>

lemma check_contexts_row_exists:
  assumes "check_contexts g db dt run_ids x cs docs = (g', evs, Inr rows)"
    and "run_ids \<noteq> []" and "(c, env) \<in> set cs"
    and "snd (resolve_lineage g db c env dt) = Inr (h, v)" and "jv_truthy h"
  shows "\<exists>locs. set locs = used_locations g x \<and>
           with_cells db run_ids dt h locs (new_doc c env run_ids h (strip_version_suffix v))
             \<in> set rows"
  using assms(1,3,4)
proof (induction cs arbitrary: g docs evs)
  case Nil
  then show ?case by simp
next
  case (Cons p cs)
  obtain c' env' where p: "p = (c', env')" by (cases p)
  from Cons.prems(1) [unfolded p] assms(2) show ?case
  proof (cases rule: check_contexts_Cons_cases)
    case (raise ev e)
    then show ?thesis by simp
  next
    case (continue ev h' v' evs')
    show ?thesis
    proof (cases "(c, env) = p")
      case True
      with continue(1) Cons.prems(3) p have hv: "h' = h" "v' = v" by simp_all
      from check_contexts_rows [OF continue(2) assms(2)] hv assms(5) True p
      have "context_row g db dt run_ids x c env h v \<in> set rows"
        by auto
      then show ?thesis
        unfolding context_row_def using set_LOCATIONS_next [of g x] by blast
    next
      case False
      with Cons.prems(2) have "(c, env) \<in> set cs" by simp
      from Cons.IH [OF continue(2) this] Cons.prems(3) show ?thesis by simp
    qed
  qed
qed

text \<open>The queries for the cells of a resolved context are among the events.\<close>

lemma check_contexts_finds:
  assumes "check_contexts g db dt run_ids x cs docs = (g', evs, Inr rows)"
    and "run_ids \<noteq> []" and "(c, env) \<in> set cs"
    and "snd (resolve_lineage g db c env dt) = Inr (h, v)" and "jv_truthy h"
    and "l \<in> used_locations g x"
  shows "set (fst (get_runs_from_db db run_ids dt h (Some l))) \<subseteq> set evs"
  using assms(1,3,4,6)
proof (induction cs arbitrary: g docs evs)
  case Nil
  then show ?case by simp
next
  case (Cons p cs)
  obtain c' env' where p: "p = (c', env')" by (cases p)
  from Cons.prems(1) [unfolded p] assms(2) show ?case
  proof (cases rule: check_contexts_Cons_cases)
    case (raise ev e)
    then show ?thesis by simp
  next
    case (continue ev h' v' evs')
    show ?thesis
    proof (cases "(c, env) = p")
      case True
      with continue(1) Cons.prems(3) p have "h' = h" by simp
      moreover from Cons.prems(4) have "l \<in> set (LOCATIONS (next_globals g x))"
        by (simp add: set_LOCATIONS_next)
      ultimately show ?thesis
        using continue(3) assms(5) True p by (auto simp: context_events_def)
    next
      case False
      with Cons.prems(2) have "(c, env) \<in> set cs" by simp
      from Cons.IH [OF continue(2) this] Cons.prems(3,4) continue(3) show ?thesis by auto
    qed
  qed
qed

text \<open>A context without a hash leaves its line; without an extra location the globals stay.\<close>

lemma check_contexts_prints:
  assumes "check_contexts g db dt run_ids x cs docs = (g', evs, Inr rows)"
    and "run_ids \<noteq> []" and "(c, env) \<in> set cs"
    and "snd (resolve_lineage g db c env dt) = Inr (h, v)" and "\<not> jv_truthy h"
  shows "Printed (''Lineage hash not found for '' @ c @ '' and '' @ env) \<in> set evs"
  using assms(1,3,4)
proof (induction cs arbitrary: g docs evs)
  case Nil
  then show ?case by simp
next
  case (Cons p cs)
  obtain c' env' where p: "p = (c', env')" by (cases p)
  from Cons.prems(1) [unfolded p] assms(2) show ?case
  proof (cases rule: check_contexts_Cons_cases)
    case (raise ev e)
    then show ?thesis by simp
  next
    case (continue ev h' v' evs')
    show ?thesis
    proof (cases "(c, env) = p")
      case True
      with continue(1) Cons.prems(3) p have "h' = h" by simp
      with continue(3) assms(5) True p show ?thesis by (simp add: context_events_def)
    next
      case False
      with Cons.prems(2) have "(c, env) \<in> set cs" by simp
      from Cons.IH [OF continue(2) this] Cons.prems(3) continue(3) show ?thesis by simp
    qed
  qed
qed

lemma check_contexts_no_extra:
  assumes "check_contexts g db dt run_ids x cs docs = (g', evs, res)"
    and "run_ids \<noteq> []" and "\<not> truthy x"
  shows "g' = g"
  using assms(1)
proof (induction cs arbitrary: docs evs)
  case Nil
  then show ?case by simp
next
  case (Cons p cs)
  obtain c env where p: "p = (c, env)" by (cases p)
  have n: "next_globals g x = g" using assms(3) by (simp add: next_globals_def)
  from Cons.prems(1) [unfolded p] assms(2) show ?case
  proof (cases rule: check_contexts_Cons_cases)
    case (raise ev e)
    then show ?thesis by simp
  next
    case (continue ev h v evs')
    from Cons.IH [OF continue(2) [unfolded n]] show ?thesis .
  qed
qed

lemma check_runs_available_success:
  assumes "check_runs_available g db dt run_ids x = (g', evs, Inr rows)"
  shows "run_ids \<noteq> [] \<and> check_contexts g db dt run_ids x RECOMMENDED [] = (g', evs, Inr rows)"
  using assms by (auto simp: check_runs_available_def split: if_splits)

lemma used_locations_iff:
  "k \<in> used_locations g x \<longleftrightarrow> k \<in> set (LOCATIONS g) \<or> x = Some k \<and> k \<noteq> []"
  by (cases x) (auto simp: used_locations_def truthy_def)

text \<open>The row of a resolved context, as the report holds it.\<close>

lemma resolved_context_row:
  assumes "check_runs_available g db dt run_ids x = (g', evs, Inr rows)"
    and "(c, env) \<in> set RECOMMENDED"
    and "snd (resolve_lineage g db c env dt) = Inr (h, v)" and "jv_truthy h"
  shows "\<exists>r \<in> set rows.
           (\<forall>k. k \<in> used_locations g x \<longrightarrow>
              map_of r k = Some (JStr (cell_text (matched db run_ids dt h k) (int (length run_ids))))) \<and>
           (\<forall>k. k \<notin> used_locations g x \<longrightarrow>
              map_of r k = map_of (new_doc c env run_ids h (strip_version_suffix v)) k)"
proof -
  from check_runs_available_success [OF assms(1)]
  have ne: "run_ids \<noteq> []"
    and run: "check_contexts g db dt run_ids x RECOMMENDED [] = (g', evs, Inr rows)"
    by simp_all
  from check_contexts_row_exists [OF run ne assms(2,3,4)]
  obtain locs where locs: "set locs = used_locations g x"
    and r: "with_cells db run_ids dt h locs (new_doc c env run_ids h (strip_version_suffix v)) \<in> set rows"
    by blast
  show ?thesis
    by (rule bexI [OF _ r]) (simp add: map_of_with_cells locs)
qed

lemma v8_in_RECOMMENDED: "(''xenonnt_v8'', ''2022.06.3'') \<in> set RECOMMENDED"
  by (simp add: RECOMMENDED_def)

lemma v8_no_ENV_VERSIONS: "map_of ENV_VERSIONS ''xenonnt_v8'' = None"
  by (simp add: ENV_VERSIONS_def)

lemma v14_in_RECOMMENDED: "(''xenonnt_v14'', ''2024.01.1'') \<in> set RECOMMENDED"
  by (simp add: RECOMMENDED_def)

lemma v13_in_RECOMMENDED: "(''xenonnt_v13'', ''2023.11.1'') \<in> set RECOMMENDED"
  by (simp add: RECOMMENDED_def)

lemma ENV_VERSIONS_v14:
  "map_of ENV_VERSIONS ''xenonnt_v14'' =
     Some [(''straxen_version'', JStr ''2.2.0''), (''strax_version'', JStr ''1.6.0''),
           (''cutax_version'', JStr ''1.16.0'')]"
  by (simp add: ENV_VERSIONS_def)

lemma ENV_VERSIONS_v13:
  "map_of ENV_VERSIONS ''xenonnt_v13'' =
     Some [(''straxen_version'', JStr ''2.1.5''), (''strax_version'', JStr ''1.5.4''),
           (''cutax_version'', JStr ''1.15.5'')]"
  by (simp add: ENV_VERSIONS_def)

subsection \<open>The science-run table under repeated calls\<close>

lemma science_runs_state_module:
  "science_runs_state (module_globals \<lparr> global_data_type := d \<rparr>)"
  unfolding science_runs_state_def
  by (rule exI [of _ None], rule exI [of _ None], rule exI [of _ None])
     (simp add: module_globals_def with_source_def)

lemma update_source_with_source:
  assumes "map_of q ''source'' = None"
  shows "AList.update ''source'' (JStr t) (with_source s q) = q @ [(''source'', JStr t)]"
proof -
  have a: "AList.update ''source'' (JStr t) q = q @ [(''source'', JStr t)]"
    using assms by (induction q) (auto split: if_splits)
  have b: "AList.update ''source'' (JStr t) (q @ [(''source'', JStr u)]) = q @ [(''source'', JStr t)]" for u
    using assms by (induction q) (auto split: if_splits)
  show ?thesis by (cases s) (simp_all add: with_source_def a b)
qed

lemma get_runs_from_source_state:
  assumes "science_runs_state g"
  shows "science_runs_state (fst (get_runs_from_source g db science_run source))"
proof -
  from assms obtain a b c where s: "SCIENCE_RUNS g =
        [(''sr0'',
            with_source a
              [(''$or'',
                 JList [JDict [(''tags.name'', JStr ''_sr0'')],
                        JDict [(''source'', JStr ''th-232''),
                               (''start'', JDict [(''$lte'', JDate 2022 8 1)])]])]),
         (''sr0_ted'', with_source b [(''tags.name'', JStr ''_sr0_ted'')]),
         (''sr1'', with_source c [(''tags.name'', JStr ''_sr1_preliminary'')])]"
    unfolding science_runs_state_def by blast
  consider "science_run = ''sr0''" | "science_run = ''sr0_ted''" | "science_run = ''sr1''"
    | "science_run \<noteq> ''sr0''" "science_run \<noteq> ''sr0_ted''" "science_run \<noteq> ''sr1''"
    by blast
  then show ?thesis
  proof cases
    case 1
    show ?thesis unfolding science_runs_state_def
      by (rule exI [of _ "Some source"], rule exI [of _ b], rule exI [of _ c])
         (simp add: 1 s get_runs_from_source_def find_coll_def Let_def update_source_with_source
            with_source_def [of "Some source"])
  next
    case 2
    show ?thesis unfolding science_runs_state_def
      by (rule exI [of _ a], rule exI [of _ "Some source"], rule exI [of _ c])
         (simp add: 2 s get_runs_from_source_def find_coll_def Let_def update_source_with_source
            with_source_def [of "Some source"])
  next
    case 3
    show ?thesis unfolding science_runs_state_def
      by (rule exI [of _ a], rule exI [of _ b], rule exI [of _ "Some source"])
         (simp add: 3 s get_runs_from_source_def find_coll_def Let_def update_source_with_source
            with_source_def [of "Some source"])
  next
    case 4
    then have "fst (get_runs_from_source g db science_run source) = g"
      by (simp add: s get_runs_from_source_def)
    with assms show ?thesis by simp
  qed
qed

lemma check_runs_available_SCIENCE_RUNS:
  "SCIENCE_RUNS (fst (check_runs_available g db dt run_ids x)) = SCIENCE_RUNS g"
proof (cases "run_ids = []")
  case True
  then show ?thesis by (simp add: check_runs_available_def)
next
  case False
  obtain g' evs res where run: "check_contexts g db dt run_ids x RECOMMENDED [] = (g', evs, res)"
    by (cases "check_contexts g db dt run_ids x RECOMMENDED []")
  from check_contexts_frame [OF run False] run False show ?thesis
    by (simp add: check_runs_available_def)
qed

lemma after_call_state:
  assumes "science_runs_state g"
  shows "science_runs_state (after_call g c)"
proof (cases c)
  case (SourceCall db science_run source)
  with assms show ?thesis by (simp add: get_runs_from_source_state)
next
  case (CheckCall db data_type run_ids extra_location)
  with assms show ?thesis
    by (simp add: science_runs_state_def check_runs_available_SCIENCE_RUNS)
qed

lemma after_calls_state:
  "science_runs_state g \<Longrightarrow> science_runs_state (after_calls g calls)"
  unfolding after_calls_def
  by (induction calls arbitrary: g) (simp_all add: after_call_state)

text \<open>What a call of \<open>get_runs_from_source\<close> does in any state that calls can reach.\<close>

lemma get_runs_from_source_in_state:
  assumes "science_runs_state g"
  shows "snd (get_runs_from_source g db science_run source) =
           (case map_of (SCIENCE_RUNS module_globals) science_run of
              None \<Rightarrow> ([], Inl KeyError)
            | Some predicate \<Rightarrow>
                ([Find ''runs'' (predicate @ [(''source'', JStr source)]) [(''number'', JInt 1)]],
                 Inr (map number (runs_find db (predicate @ [(''source'', JStr source)])
                                    [(''number'', JInt 1)]))))"
proof -
  from assms obtain a b c where s: "SCIENCE_RUNS g =
        [(''sr0'',
            with_source a
              [(''$or'',
                 JList [JDict [(''tags.name'', JStr ''_sr0'')],
                        JDict [(''source'', JStr ''th-232''),
                               (''start'', JDict [(''$lte'', JDate 2022 8 1)])]])]),
         (''sr0_ted'', with_source b [(''tags.name'', JStr ''_sr0_ted'')]),
         (''sr1'', with_source c [(''tags.name'', JStr ''_sr1_preliminary'')])]"
    unfolding science_runs_state_def by blast
  consider "science_run = ''sr0''" | "science_run = ''sr0_ted''" | "science_run = ''sr1''"
    | "science_run \<noteq> ''sr0''" "science_run \<noteq> ''sr0_ted''" "science_run \<noteq> ''sr1''"
    by blast
  then show ?thesis
  proof cases
    case 1
    show ?thesis
      by (simp add: 1 s get_runs_from_source_def find_coll_def Let_def update_source_with_source
            module_globals_def)
  next
    case 2
    show ?thesis
      by (simp add: 2 s get_runs_from_source_def find_coll_def Let_def update_source_with_source
            module_globals_def)
  next
    case 3
    show ?thesis
      by (simp add: 3 s get_runs_from_source_def find_coll_def Let_def update_source_with_source
            module_globals_def)
  next
    case 4
    then show ?thesis
      by (simp add: s get_runs_from_source_def module_globals_def)
  qed
qed

subsection \<open>The sample runs, evaluated\<close>

lemma availability_2_3: "availability 2 3 = Inr ''2 (66.7%)''"
  by code_simp

lemma availability_0_3: "availability 0 3 = Inr ''0 (0.0%)''"
  by code_simp

lemmas run_defs =
  check_runs_available_def RECOMMENDED_def check_contexts.simps resolve_lineage_def
  get_lineage_hash_def get_lineae_hash_from_version_def ENV_VERSIONS_def
  script_globals_def module_globals_def truthy_def strip_version_suffix_def new_doc_def
  get_runs_from_db_def Let_def availability_2_3 availability_0_3

lemma demo_report:
  "snd (snd (check_runs_available (script_globals ''peaklets'') demo_db ''peaklets'' [1, 2, 3] None)) =
   Inr [[(''Context'', JStr ''xenonnt_v14''),
       (''Environment'', JStr ''2024.01.1''), (''Total Checked'', JInt 3),
       (''LineageHash'', JStr ''abc''), (''straxen'', JStr ''2.2.0''),
       (''strax'', JStr ''1.6.0''), (''cutax'', JStr ''1.16.0''),
       (''UC_DALI_USERDISK'', JStr ''2 (66.7%)''),
       (''UC_MIDWAY_USERDISK'', JStr ''0 (0.0%)'')],
      [(''Context'', JStr ''xenonnt_v13''),
       (''Environment'', JStr ''2023.11.1''), (''Total Checked'', JInt 3),
       (''LineageHash'', JStr ''h13''), (''straxen'', JStr ''2.1.5''),
       (''strax'', JStr ''1.5.4''), (''cutax'', JStr ''1.15.5''),
       (''UC_DALI_USERDISK'', JStr ''0 (0.0%)''),
       (''UC_MIDWAY_USERDISK'', JStr ''0 (0.0%)'')],
      [(''Context'', JStr ''xenonnt_v8''),
       (''Environment'', JStr ''2022.06.3''), (''Total Checked'', JInt 3),
       (''LineageHash'', JStr ''h8''), (''straxen'', JStr ''1.8.3''),
       (''strax'', JStr ''1.2.2''), (''cutax'', JStr ''UNKNOWN''),
       (''UC_DALI_USERDISK'', JStr ''0 (0.0%)''),
       (''UC_MIDWAY_USERDISK'', JStr ''0 (0.0%)'')]]"
  by (simp add: run_defs demo_db_def)

lemma demo_report_strax:
  "snd (snd (check_runs_available (script_globals ''peaklets'') demo_db ''peaklets'' [1, 2, 3] (Some ''strax''))) =
   Inr [[(''Context'', JStr ''xenonnt_v14''),
       (''Environment'', JStr ''2024.01.1''), (''Total Checked'', JInt 3),
       (''LineageHash'', JStr ''abc''), (''straxen'', JStr ''2.2.0''),
       (''strax'', JStr ''0 (0.0%)''), (''cutax'', JStr ''1.16.0''),
       (''UC_DALI_USERDISK'', JStr ''2 (66.7%)''),
       (''UC_MIDWAY_USERDISK'', JStr ''0 (0.0%)'')],
      [(''Context'', JStr ''xenonnt_v13''),
       (''Environment'', JStr ''2023.11.1''), (''Total Checked'', JInt 3),
       (''LineageHash'', JStr ''h13''), (''straxen'', JStr ''2.1.5''),
       (''strax'', JStr ''0 (0.0%)''), (''cutax'', JStr ''1.15.5''),
       (''UC_DALI_USERDISK'', JStr ''0 (0.0%)''),
       (''UC_MIDWAY_USERDISK'', JStr ''0 (0.0%)'')],
      [(''Context'', JStr ''xenonnt_v8''),
       (''Environment'', JStr ''2022.06.3''), (''Total Checked'', JInt 3),
       (''LineageHash'', JStr ''h8''), (''straxen'', JStr ''1.8.3''),
       (''strax'', JStr ''0 (0.0%)''), (''cutax'', JStr ''UNKNOWN''),
       (''UC_DALI_USERDISK'', JStr ''0 (0.0%)''),
       (''UC_MIDWAY_USERDISK'', JStr ''0 (0.0%)'')]]"
  by (simp add: run_defs demo_db_def)

lemma none_report:
  "check_runs_available (script_globals ''peaklets'') db_none ''peaklets'' [1] None =
     (script_globals ''peaklets'',
      [FindOne ''contexts'' [(''name'', JStr ''xenonnt_v14''), (''tag'', JStr ''2024.01.1'')]
         [(''hashes.peaklets'', JInt 1), (''straxen_version'', JInt 1), (''strax_version'', JInt 1),
          (''cutax_version'', JInt 1)],
       FindOne ''contexts''
         [(''straxen_version'', JStr ''2.2.0''), (''strax_version'', JStr ''1.6.0''),
          (''cutax_version'', JStr ''1.16.0''), (''name'', JStr ''xenonnt_v14'')]
         [(''hashes.peaklets'', JInt 1)],
       Printed ''Lineage hash not found for xenonnt_v14 and 2024.01.1'',
       FindOne ''contexts'' [(''name'', JStr ''xenonnt_v13''), (''tag'', JStr ''2023.11.1'')]
         [(''hashes.peaklets'', JInt 1), (''straxen_version'', JInt 1), (''strax_version'', JInt 1),
          (''cutax_version'', JInt 1)],
       FindOne ''contexts''
         [(''straxen_version'', JStr ''2.1.5''), (''strax_version'', JStr ''1.5.4''),
          (''cutax_version'', JStr ''1.15.5''), (''name'', JStr ''xenonnt_v13'')]
         [(''hashes.peaklets'', JInt 1)],
       Printed ''Lineage hash not found for xenonnt_v13 and 2023.11.1'',
       FindOne ''contexts'' [(''name'', JStr ''xenonnt_v12''), (''tag'', JStr ''2023.10.1'')]
         [(''hashes.peaklets'', JInt 1), (''straxen_version'', JInt 1), (''strax_version'', JInt 1),
          (''cutax_version'', JInt 1)],
       FindOne ''contexts''
         [(''straxen_version'', JStr ''2.1.4''), (''strax_version'', JStr ''1.5.4''),
          (''cutax_version'', JStr ''1.15.4''), (''name'', JStr ''xenonnt_v12'')]
         [(''hashes.peaklets'', JInt 1)],
       Printed ''Lineage hash not found for xenonnt_v12 and 2023.10.1'',
       FindOne ''contexts'' [(''name'', JStr ''xenonnt_v11''), (''tag'', JStr ''2023.07.1'')]
         [(''hashes.peaklets'', JInt 1), (''straxen_version'', JInt 1), (''strax_version'', JInt 1),
          (''cutax_version'', JInt 1)],
       FindOne ''contexts''
         [(''straxen_version'', JStr ''2.1.1''), (''strax_version'', JStr ''1.5.2''),
          (''cutax_version'', JStr ''1.15.1''), (''name'', JStr ''xenonnt_v11'')]
         [(''hashes.peaklets'', JInt 1)],
       Printed ''Lineage hash not found for xenonnt_v11 and 2023.07.1'',
       FindOne ''contexts'' [(''name'', JStr ''xenonnt_v8''), (''tag'', JStr ''2022.06.3'')]
         [(''hashes.peaklets'', JInt 1), (''straxen_version'', JInt 1), (''strax_version'', JInt 1),
          (''cutax_version'', JInt 1)]],
      Inl KeyError)"
  by (simp add: run_defs db_none_def)

lemma none_report_imported:
  "check_runs_available module_globals db_none ''peaklets'' [1] None =
     (module_globals,
      [FindOne ''contexts'' [(''name'', JStr ''xenonnt_v14''), (''tag'', JStr ''2024.01.1'')]
         [(''hashes.peaklets'', JInt 1), (''straxen_version'', JInt 1), (''strax_version'', JInt 1),
          (''cutax_version'', JInt 1)]],
      Inl NameError)"
  by (simp add: run_defs db_none_def)

lemma report_rows_run:
  "snd (snd res) = Inr rows \<Longrightarrow> res = (fst res, fst (snd res), Inr (report_rows res))"
  by (cases res) (simp add: report_rows_def)

lemma demo_run:
  "check_runs_available (script_globals ''peaklets'') demo_db ''peaklets'' [1, 2, 3] None =
     (fst (check_runs_available (script_globals ''peaklets'') demo_db ''peaklets'' [1, 2, 3] None),
      fst (snd (check_runs_available (script_globals ''peaklets'') demo_db ''peaklets'' [1, 2, 3] None)),
      Inr (report_rows (check_runs_available (script_globals ''peaklets'') demo_db ''peaklets'' [1, 2, 3] None)))"
  by (rule report_rows_run [OF demo_report])

lemma demo_resolve_v14:
  "snd (resolve_lineage (script_globals ''peaklets'') demo_db ''xenonnt_v14'' ''2024.01.1'' ''peaklets'') =
     Inr (JStr ''abc'',
          [(''straxen_version'', JStr ''2.2.0''), (''strax_version'', JStr ''1.6.0''),
           (''cutax_version'', JStr ''1.16.0'')])"
  by (simp add: run_defs demo_db_def)

lemma demo_matched_dali:
  "runs_find demo_db
     [(''number'', JDict [(''$in'', JList (map JInt [1, 2, 3]))]),
      (''data'', JDict [(''$elemMatch'',
         JDict [(''type'', JStr ''peaklets''), (''meta.lineage_hash'', JStr ''abc''),
                (''location'', JStr ''UC_DALI_USERDISK'')])])]
     [(''number'', JInt 1)] = [\<lparr> number = 1 \<rparr>, \<lparr> number = 3 \<rparr>]"
  by (simp add: demo_db_def)

lemma percentage_2_3: "format_1f (py_float_mul (fl (of_int 2 / of_int (int (length [1::int, 2, 3])))) 100) = ''66.7''"
  by code_simp

lemma py_str_2: "py_str 2 = ''2''"
  by code_simp

lemma demo_primary_v14:
  "snd (get_lineage_hash demo_db ''xenonnt_v14'' ''2024.01.1'' ''peaklets'') = Inr (JNone, [])"
  by (simp add: get_lineage_hash_def demo_db_def)

lemma demo_fallback_v14:
  "snd (get_lineae_hash_from_version (script_globals ''peaklets'') demo_db ''xenonnt_v14''
          [(''straxen_version'', JStr ''2.2.0''), (''strax_version'', JStr ''1.6.0''),
           (''cutax_version'', JStr ''1.16.0'')]) = Inr (JStr ''abc'')"
  by (simp add: get_lineae_hash_from_version_def demo_db_def script_globals_def module_globals_def)

lemma demo_find_v13:
  "contexts_find_one demo_db [(''name'', JStr ''xenonnt_v13''), (''tag'', JStr ''2023.11.1'')]
     [(''hashes.'' @ ''peaklets'', JInt 1), (''straxen_version'', JInt 1),
      (''strax_version'', JInt 1), (''cutax_version'', JInt 1)] =
   Some [(''hashes'', JDict [(''peaklets'', JStr ''h13'')]),
         (''straxen_version'', JStr ''2.1.5''), (''strax_version'', JStr ''1.5.4''),
         (''cutax_version'', JStr ''1.15.5'')]"
  by (simp add: demo_db_def)

lemma demo_run_strax:
  "check_runs_available (script_globals ''peaklets'') demo_db ''peaklets'' [1, 2, 3] (Some ''strax'') =
     (fst (check_runs_available (script_globals ''peaklets'') demo_db ''peaklets'' [1, 2, 3] (Some ''strax'')),
      fst (snd (check_runs_available (script_globals ''peaklets'') demo_db ''peaklets'' [1, 2, 3] (Some ''strax''))),
      Inr (report_rows (check_runs_available (script_globals ''peaklets'') demo_db ''peaklets'' [1, 2, 3] (Some ''strax''))))"
  by (rule report_rows_run [OF demo_report_strax])

lemma demo_strax_cell:
  "availability (int (length (snd (get_runs_from_db demo_db [1, 2, 3] ''peaklets'' (JStr ''abc'')
                                     (Some ''strax''))))) (int (length [1::int, 2, 3])) =
     Inr ''0 (0.0%)''"
  by (simp add: get_runs_from_db_at demo_db_def availability_0_3)

lemma availability_0_1: "availability 0 1 = Inr ''0 (0.0%)''"
  by code_simp

lemma empty_hash_report:
  "check_runs_available (script_globals ''peaklets'') empty_hash_db ''peaklets'' [1] None =
     (script_globals ''peaklets'',
      [FindOne ''contexts'' [(''name'', JStr ''xenonnt_v14''), (''tag'', JStr ''2024.01.1'')]
         [(''hashes.peaklets'', JInt 1), (''straxen_version'', JInt 1), (''strax_version'', JInt 1),
          (''cutax_version'', JInt 1)],
       FindOne ''contexts''
         [(''straxen_version'', JStr ''2.2.0''), (''strax_version'', JStr ''1.6.0''),
          (''cutax_version'', JStr ''1.16.0''), (''name'', JStr ''xenonnt_v14'')]
         [(''hashes.peaklets'', JInt 1)],
       Printed ''Lineage hash not found for xenonnt_v14 and 2024.01.1'',
       FindOne ''contexts'' [(''name'', JStr ''xenonnt_v13''), (''tag'', JStr ''2023.11.1'')]
         [(''hashes.peaklets'', JInt 1), (''straxen_version'', JInt 1), (''strax_version'', JInt 1),
          (''cutax_version'', JInt 1)],
       FindOne ''contexts''
         [(''straxen_version'', JStr ''2.1.5''), (''strax_version'', JStr ''1.5.4''),
          (''cutax_version'', JStr ''1.15.5''), (''name'', JStr ''xenonnt_v13'')]
         [(''hashes.peaklets'', JInt 1)],
       Printed ''Lineage hash not found for xenonnt_v13 and 2023.11.1'',
       FindOne ''contexts'' [(''name'', JStr ''xenonnt_v12''), (''tag'', JStr ''2023.10.1'')]
         [(''hashes.peaklets'', JInt 1), (''straxen_version'', JInt 1), (''strax_version'', JInt 1),
          (''cutax_version'', JInt 1)],
       FindOne ''contexts''
         [(''straxen_version'', JStr ''2.1.4''), (''strax_version'', JStr ''1.5.4''),
          (''cutax_version'', JStr ''1.15.4''), (''name'', JStr ''xenonnt_v12'')]
         [(''hashes.peaklets'', JInt 1)],
       Printed ''Lineage hash not found for xenonnt_v12 and 2023.10.1'',
       FindOne ''contexts'' [(''name'', JStr ''xenonnt_v11''), (''tag'', JStr ''2023.07.1'')]
         [(''hashes.peaklets'', JInt 1), (''straxen_version'', JInt 1), (''strax_version'', JInt 1),
          (''cutax_version'', JInt 1)],
       FindOne ''contexts''
         [(''straxen_version'', JStr ''2.1.1''), (''strax_version'', JStr ''1.5.2''),
          (''cutax_version'', JStr ''1.15.1''), (''name'', JStr ''xenonnt_v11'')]
         [(''hashes.peaklets'', JInt 1)],
       Printed ''Lineage hash not found for xenonnt_v11 and 2023.07.1'',
       FindOne ''contexts'' [(''name'', JStr ''xenonnt_v8''), (''tag'', JStr ''2022.06.3'')]
         [(''hashes.peaklets'', JInt 1), (''straxen_version'', JInt 1), (''strax_version'', JInt 1),
          (''cutax_version'', JInt 1)],
       Find ''runs''
         [(''number'', JDict [(''$in'', JList [JInt 1])]),
          (''data'', JDict [(''$elemMatch'',
             JDict [(''type'', JStr ''peaklets''), (''meta.lineage_hash'', JStr ''h8''),
                    (''location'', JStr ''UC_DALI_USERDISK'')])])]
         [(''number'', JInt 1)],
       Find ''runs''
         [(''number'', JDict [(''$in'', JList [JInt 1])]),
          (''data'', JDict [(''$elemMatch'',
             JDict [(''type'', JStr ''peaklets''), (''meta.lineage_hash'', JStr ''h8''),
                    (''location'', JStr ''UC_MIDWAY_USERDISK'')])])]
         [(''number'', JInt 1)]],
      Inr [[(''Context'', JStr ''xenonnt_v8''),
            (''Environment'', JStr ''2022.06.3''), (''Total Checked'', JInt 1),
            (''LineageHash'', JStr ''h8''), (''straxen'', JStr ''1.8.3''),
            (''strax'', JStr ''1.2.2''), (''cutax'', JStr ''UNKNOWN''),
            (''UC_DALI_USERDISK'', JStr ''0 (0.0%)''),
            (''UC_MIDWAY_USERDISK'', JStr ''0 (0.0%)'')]])"
  by (simp add: run_defs empty_hash_db_def availability_0_1)

text \<open>No version of \<open>ENV_VERSIONS\<close> reads like an availability cell.\<close>

lemma ENV_VERSIONS_no_cell:
  assumes "map_of ENV_VERSIONS c = Some vs"
  shows "\<forall>(k, v) \<in> set vs. \<exists>s. v = JStr s \<and> last s \<noteq> CHR '')''"
  using assms by (auto simp: ENV_VERSIONS_def split: if_splits)

lemma cell_text_last: "last (cell_text n t) = CHR '')''"
  by (simp add: cell_text_def)

section \<open>The claims\<close>

text \<open>
  C1.  The specification has every recommended context for which neither the lookup by
  name and tag nor the lookup by versions resolves a lineage hash skipped with a printed
  line, the remaining contexts still being checked.  The code does so for the contexts
  that \<open>ENV_VERSIONS\<close> lists, but not for xenonnt_v8, which has no entry there: whenever
  the lookup by name and tag gives no true hash for xenonnt_v8, \<^verbatim>\<open>ENV_VERSIONS[context]\<close>
  raises, and \<open>check_runs_available\<close> ends in an exception, whatever the database holds for
  the other contexts, the run ids and the extra location.  The same holds for every
  recommended context when the module is imported: the lookup by versions then raises
  NameError, its \<^verbatim>\<open>data_type\<close> being a global that only the script binds.
\<close>

theorem unresolved_context_raises:
  assumes "(context, env_version) \<in> set RECOMMENDED"
    and "\<forall>h v. snd (get_lineage_hash db context env_version data_type) = Inr (h, v) \<longrightarrow> \<not> jv_truthy h"
    and "context = ''xenonnt_v8'' \<or> global_data_type g = None"
  shows "\<exists>e. snd (snd (check_runs_available g db data_type run_ids extra_location)) = Inl e"
proof (cases "run_ids = []")
  case True
  then show ?thesis by (simp add: check_runs_available_def)
next
  case False
  obtain g' evs res where run:
    "check_contexts g db data_type run_ids extra_location RECOMMENDED [] = (g', evs, res)"
    by (cases "check_contexts g db data_type run_ids extra_location RECOMMENDED []")
  have "\<exists>e. res = Inl e"
  proof (cases res)
    case (Inl e)
    then show ?thesis by simp
  next
    case (Inr rows)
    from check_contexts_all_resolved [OF run [unfolded Inr] False assms(1)]
    obtain hv where hv: "snd (resolve_lineage g db context env_version data_type) = Inr hv"
      by blast
    have "\<exists>e. snd (resolve_lineage g db context env_version data_type) = Inl e"
    proof (cases "snd (get_lineage_hash db context env_version data_type)")
      case (Inl e)
      from resolve_lineage_primary_raises [OF this] show ?thesis by simp
    next
      case (Inr p)
      obtain h v where p: "p = (h, v)" by (cases p)
      with Inr have glh: "snd (get_lineage_hash db context env_version data_type) = Inr (h, v)"
        by simp
      with assms(2) have nt: "\<not> jv_truthy h" by simp
      show ?thesis
      proof (cases "map_of ENV_VERSIONS context")
        case None
        from resolve_lineage_no_table [OF glh nt None] show ?thesis by simp
      next
        case (Some vs)
        with assms(3) have "global_data_type g = None" by (auto simp: v8_no_ENV_VERSIONS)
        then have "get_lineae_hash_from_version g db context vs = ([], Inl NameError)"
          by (simp add: get_lineae_hash_from_version_def)
        with resolve_lineage_fallback [OF glh nt Some, of g] show ?thesis by simp
      qed
    qed
    with hv show ?thesis by simp
  qed
  with run False show ?thesis by (simp add: check_runs_available_def)
qed

text \<open>
  On a database without documents: run as a script, the call prints that the hash was not
  found for the four contexts of \<open>ENV_VERSIONS\<close> and raises KeyError at xenonnt_v8; on the
  imported module it raises NameError at the first context.
\<close>

theorem unresolved_context_raises_witness:
  "snd (get_lineage_hash db_none ''xenonnt_v8'' ''2022.06.3'' ''peaklets'') = Inr (JNone, []) \<and>
   snd (snd (check_runs_available (script_globals ''peaklets'') db_none ''peaklets'' [1] None)) =
     Inl KeyError \<and>
   snd (get_lineage_hash db_none ''xenonnt_v14'' ''2024.01.1'' ''peaklets'') = Inr (JNone, []) \<and>
   snd (snd (check_runs_available module_globals db_none ''peaklets'' [1] None)) = Inl NameError"
proof -
  have h8: "snd (get_lineage_hash db_none ''xenonnt_v8'' ''2022.06.3'' ''peaklets'') = Inr (JNone, [])"
    by (simp add: get_lineage_hash_def db_none_def)
  have h14: "snd (get_lineage_hash db_none ''xenonnt_v14'' ''2024.01.1'' ''peaklets'') = Inr (JNone, [])"
    by (simp add: get_lineage_hash_def db_none_def)
  have g: "global_data_type module_globals = None" by (simp add: module_globals_def)
  from unresolved_context_raises [OF v8_in_RECOMMENDED, of db_none "''peaklets''"
      "script_globals ''peaklets''" "[1]" None] h8
  obtain e where
    "snd (snd (check_runs_available (script_globals ''peaklets'') db_none ''peaklets'' [1] None)) = Inl e"
    by auto
  with none_report
  have 1: "snd (snd (check_runs_available (script_globals ''peaklets'') db_none ''peaklets'' [1] None)) =
             Inl KeyError"
    by simp
  from unresolved_context_raises [OF v14_in_RECOMMENDED, of db_none "''peaklets''" module_globals
      "[1]" None] h14 g
  obtain e' where
    "snd (snd (check_runs_available module_globals db_none ''peaklets'' [1] None)) = Inl e'"
    by auto
  with none_report_imported
  have 2: "snd (snd (check_runs_available module_globals db_none ''peaklets'' [1] None)) = Inl NameError"
    by simp
  from h8 1 h14 2 show ?thesis by blast
qed

text \<open>
  C2.  The specification has the availability computed over the two default locations
  plus the extra location, and the global location table left unchanged.  The code names
  the global list itself and appends to it in every pass of the loop: a call with a
  non-empty extra location that returns a report leaves \<open>LOCATIONS\<close> five entries longer
  than it found it.
\<close>

theorem extra_location_grows_LOCATIONS:
  assumes "check_runs_available g db data_type run_ids (Some extra) = (g', evs, Inr rows)"
    and "extra \<noteq> []"
  shows "LOCATIONS g' = LOCATIONS g @ [extra, extra, extra, extra, extra]"
proof -
  from assms(1) have ne: "run_ids \<noteq> []"
    by (auto simp: check_runs_available_def split: if_splits)
  with assms(1) have run:
    "check_contexts g db data_type run_ids (Some extra) RECOMMENDED [] = (g', evs, Inr rows)"
    by (simp add: check_runs_available_def)
  have "length RECOMMENDED = 5" by (simp add: RECOMMENDED_def)
  with check_contexts_LOCATIONS [OF run ne] assms(2) show ?thesis
    by (simp add: truthy_def numeral_eq_Suc)
qed

text \<open>
  In the sample run three contexts are resolved, the first, the second and the fifth of
  the loop: their rows take 3, 4 and 7 queries of the runs collection, where 3 each would
  do.
\<close>

theorem extra_location_grows_LOCATIONS_witness:
  "LOCATIONS (fst (check_runs_available (script_globals ''peaklets'') demo_db ''peaklets'' [1, 2, 3]
      (Some ''SDSC_USERDISK''))) =
   [''UC_DALI_USERDISK'', ''UC_MIDWAY_USERDISK'', ''SDSC_USERDISK'', ''SDSC_USERDISK'',
    ''SDSC_USERDISK'', ''SDSC_USERDISK'', ''SDSC_USERDISK''] \<and>
   length (filter (\<lambda>e. case e of Find c q p \<Rightarrow> True | _ \<Rightarrow> False)
     (fst (snd (check_runs_available (script_globals ''peaklets'') demo_db ''peaklets'' [1, 2, 3]
        (Some ''SDSC_USERDISK''))))) = 14"
proof -
  let ?r = "check_runs_available (script_globals ''peaklets'') demo_db ''peaklets'' [1, 2, 3]
      (Some ''SDSC_USERDISK'')"
  have "\<exists>rows. snd (snd ?r) = Inr rows"
    by (simp add: run_defs demo_db_def)
  then obtain rows where "?r = (fst ?r, fst (snd ?r), Inr rows)"
    by (metis prod.collapse)
  from extra_location_grows_LOCATIONS [OF this]
  have 1: "LOCATIONS (fst ?r) =
     [''UC_DALI_USERDISK'', ''UC_MIDWAY_USERDISK'', ''SDSC_USERDISK'', ''SDSC_USERDISK'',
      ''SDSC_USERDISK'', ''SDSC_USERDISK'', ''SDSC_USERDISK'']"
    by (simp add: script_globals_def module_globals_def)
  have 2: "length (filter (\<lambda>e. case e of Find c q p \<Rightarrow> True | _ \<Rightarrow> False) (fst (snd ?r))) = 14"
    by (simp add: run_defs demo_db_def)
  from 1 2 show ?thesis by blast
qed

text \<open>
  C3.  When a call returns a report, every recommended context whose lineage hash was
  resolved has a row in it (the row that holds the context's own columns wherever no
  location has the column's name), and for every location in use:

    \<^item> the call has sent to the runs collection the query for the documents whose
      \<^verbatim>\<open>number\<close> is among the run ids and that have a \<^verbatim>\<open>data\<close> entry of the data type,
      the lineage hash and the location, projected to the run number;

    \<^item> the row's cell for the location is \<open>"<n> (<p>%)"\<close>, where \<open>n\<close> is the number of
      documents that the collection returns for that query, written as a decimal
      numeral (digits only, no leading zero, reading as \<open>n\<close>), and \<open>p\<close> is the float
      \<open>n / total_checked * 100\<close> printed with exactly one digit after the point; the
      number that the printed digits denote is the exact percentage up to 0.05 and the
      rounding of the two float operations;

    \<^item> when the returned documents have distinct run numbers, all among the run ids (as
      for a collection with one document per run), \<open>n\<close> is the number of input run ids
      that have a document at the location, a run id that the list repeats counted once.

  \<open>total_checked\<close> is the length of the list of run ids.
\<close>

theorem availability_cell:
  assumes "check_runs_available g db data_type run_ids extra_location = (g', evs, Inr rows)"
    and "(context, env_version) \<in> set RECOMMENDED"
    and "snd (resolve_lineage g db context env_version data_type) = Inr (lineage_hash, versions)"
    and "jv_truthy lineage_hash"
  shows "\<exists>r \<in> set rows.
           (\<forall>k. k \<notin> set (LOCATIONS g) \<longrightarrow> extra_location \<noteq> Some k \<longrightarrow>
                map_of r k =
                  map_of (new_doc context env_version run_ids lineage_hash
                            (strip_version_suffix versions)) k) \<and>
           (\<forall>location.
              location \<in> set (LOCATIONS g) \<or> extra_location = Some location \<and> location \<noteq> [] \<longrightarrow>
              (let query =
                     [(''number'', JDict [(''$in'', JList (map JInt run_ids))]),
                      (''data'', JDict [(''$elemMatch'',
                         JDict ([(''type'', JStr data_type), (''meta.lineage_hash'', lineage_hash)] @
                                (if location = [] then [] else [(''location'', JStr location)])))])];
                   projection = [(''number'', JInt 1)];
                   found = runs_find db query projection;
                   n = length found;
                   t = length run_ids;
                   p = py_float_mul (fl (of_nat n / of_nat t)) 100
               in Find ''runs'' query projection \<in> set evs \<and>
                  map_of r location = Some (JStr (py_str (int n) @ '' ('' @ format_1f p @ ''%)'')) \<and>
                  py_str (int n) \<noteq> [] \<and> list_all decimal_char (py_str (int n)) \<and>
                  digits_value (py_str (int n)) = n \<and>
                  (py_str (int n) = ''0'' \<or> hd (py_str (int n)) \<noteq> CHR ''0'') \<and>
                  (\<exists>ip d. format_1f p = ip @ ''.'' @ [d] \<and> ip \<noteq> [] \<and>
                          list_all decimal_char ip \<and> decimal_char d \<and>
                          (ip = ''0'' \<or> hd ip \<noteq> CHR ''0'') \<and>
                          \<bar>(of_nat (digits_value ip) :: rat) + of_nat (digit_value d) / 10 -
                             100 * (of_nat n / of_nat t)\<bar>
                            \<le> 1 / 20 + 300 * (of_nat n / of_nat t) / 2 ^ 53) \<and>
                  (distinct (map number found) \<and> set (map number found) \<subseteq> set run_ids \<longrightarrow>
                     n = card {i \<in> set run_ids. i \<in> set (map number found)})))"
proof -
  from check_runs_available_success [OF assms(1)]
  have ne: "run_ids \<noteq> []"
    and run: "check_contexts g db data_type run_ids extra_location RECOMMENDED [] = (g', evs, Inr rows)"
    by simp_all
  from resolved_context_row [OF assms] obtain r where r: "r \<in> set rows"
    and cells: "\<And>k. k \<in> used_locations g extra_location \<Longrightarrow>
              map_of r k =
                Some (JStr (cell_text (matched db run_ids data_type lineage_hash k)
                              (int (length run_ids))))"
    and cols: "\<And>k. k \<notin> used_locations g extra_location \<Longrightarrow>
              map_of r k =
                map_of (new_doc context env_version run_ids lineage_hash
                          (strip_version_suffix versions)) k"
    by blast
  have a: "map_of r k =
             map_of (new_doc context env_version run_ids lineage_hash
                       (strip_version_suffix versions)) k"
    if "k \<notin> set (LOCATIONS g)" "extra_location \<noteq> Some k" for k
    using cols [of k] that by (simp add: used_locations_iff)
  have b: "Find ''runs'' query projection \<in> set evs \<and>
              map_of r location = Some (JStr (py_str (int n) @ '' ('' @ format_1f p @ ''%)'')) \<and>
              py_str (int n) \<noteq> [] \<and> list_all decimal_char (py_str (int n)) \<and>
              digits_value (py_str (int n)) = n \<and>
              (py_str (int n) = ''0'' \<or> hd (py_str (int n)) \<noteq> CHR ''0'') \<and>
              (\<exists>ip d. format_1f p = ip @ ''.'' @ [d] \<and> ip \<noteq> [] \<and> list_all decimal_char ip \<and>
                      decimal_char d \<and> (ip = ''0'' \<or> hd ip \<noteq> CHR ''0'') \<and>
                      \<bar>(of_nat (digits_value ip) :: rat) + of_nat (digit_value d) / 10 -
                         100 * (of_nat n / of_nat t)\<bar>
                        \<le> 1 / 20 + 300 * (of_nat n / of_nat t) / 2 ^ 53) \<and>
              (distinct (map number found) \<and> set (map number found) \<subseteq> set run_ids \<longrightarrow>
                 n = card {i \<in> set run_ids. i \<in> set (map number found)})"
    if l: "location \<in> set (LOCATIONS g) \<or> extra_location = Some location \<and> location \<noteq> []"
      and q: "query =
                [(''number'', JDict [(''$in'', JList (map JInt run_ids))]),
                 (''data'', JDict [(''$elemMatch'',
                    JDict ([(''type'', JStr data_type), (''meta.lineage_hash'', lineage_hash)] @
                           (if location = [] then [] else [(''location'', JStr location)])))])]"
      and pr: "projection = [(''number'', JInt 1)]"
      and f: "found = runs_find db query projection"
      and n: "n = length found"
      and t: "t = length run_ids"
      and p: "p = py_float_mul (fl (of_nat n / of_nat t)) 100"
    for location query projection found n t p
  proof -
    from l have u: "location \<in> used_locations g extra_location" by (simp add: used_locations_iff)
    have g: "get_runs_from_db db run_ids data_type lineage_hash (Some location) =
               ([Find ''runs'' query projection], map number found)"
      unfolding q pr f by (rule get_runs_from_db_at)
    from check_contexts_finds [OF run ne assms(2,3,4) u]
    have 0: "Find ''runs'' query projection \<in> set evs" by (simp add: g)
    have m: "matched db run_ids data_type lineage_hash location = int n"
      by (simp add: matched_def g n)
    from cells [OF u]
    have 1: "map_of r location = Some (JStr (py_str (int n) @ '' ('' @ format_1f p @ ''%)''))"
      by (simp add: cell_text_def m t p)
    have x: "(0::rat) \<le> of_nat n / of_nat t" by simp
    have "0 \<le> p" unfolding p py_float_mul_def by (intro fl_nonneg mult_nonneg_nonneg fl_nonneg x) simp
    from format_1f_reads [OF this] obtain ip d where
      fm: "format_1f p = ip @ ''.'' @ [d]" "ip \<noteq> []" "list_all decimal_char ip" "decimal_char d"
        "ip = ''0'' \<or> hd ip \<noteq> CHR ''0''"
      and near: "\<bar>(of_nat (digits_value ip) :: rat) + of_nat (digit_value d) / 10 - p\<bar> \<le> 1 / 20"
      by blast
    have "\<bar>p - 100 * (of_nat n / of_nat t)\<bar> \<le> 300 * (of_nat n / of_nat t) / 2 ^ 53"
      unfolding p by (rule percentage_error [OF x])
    with near
    have "\<bar>(of_nat (digits_value ip) :: rat) + of_nat (digit_value d) / 10 - 100 * (of_nat n / of_nat t)\<bar>
            \<le> 1 / 20 + 300 * (of_nat n / of_nat t) / 2 ^ 53"
      by linarith
    with fm have 2: "\<exists>ip d. format_1f p = ip @ ''.'' @ [d] \<and> ip \<noteq> [] \<and> list_all decimal_char ip \<and>
                      decimal_char d \<and> (ip = ''0'' \<or> hd ip \<noteq> CHR ''0'') \<and>
                      \<bar>(of_nat (digits_value ip) :: rat) + of_nat (digit_value d) / 10 -
                         100 * (of_nat n / of_nat t)\<bar>
                        \<le> 1 / 20 + 300 * (of_nat n / of_nat t) / 2 ^ 53"
      by blast
    have 3: "n = card {i \<in> set run_ids. i \<in> set (map number found)}"
      if "distinct (map number found) \<and> set (map number found) \<subseteq> set run_ids"
      using length_distinct_numbers [of "map number found" "set run_ids"] that by (simp add: n)
    from 0 1 2 3 py_str_reads [of n] show ?thesis by blast
  qed
  show ?thesis
    unfolding Let_def by (rule bexI [OF _ r]) (use a b in blast)
qed

text \<open>
  The scenario of the specification: run ids 1, 2, 3, data type peaklets, a context
  resolved to the hash abc, two of the three runs present at UC_DALI_USERDISK.
\<close>

theorem availability_cell_witness:
  "\<exists>r \<in> set (report_rows (check_runs_available (script_globals ''peaklets'') demo_db ''peaklets''
                           [1, 2, 3] None)).
     map_of r ''Context'' = Some (JStr ''xenonnt_v14'') \<and>
     map_of r ''UC_DALI_USERDISK'' = Some (JStr ''2 (66.7%)'')"
proof -
  let ?q = "[(''number'', JDict [(''$in'', JList (map JInt [1, 2, 3]))]),
             (''data'', JDict [(''$elemMatch'',
                JDict [(''type'', JStr ''peaklets''), (''meta.lineage_hash'', JStr ''abc''),
                       (''location'', JStr ''UC_DALI_USERDISK'')])])]"
  have t: "jv_truthy (JStr ''abc'')" by simp
  from availability_cell [OF demo_run v14_in_RECOMMENDED demo_resolve_v14 t]
  obtain r where r: "r \<in> set (report_rows (check_runs_available (script_globals ''peaklets'') demo_db
                                  ''peaklets'' [1, 2, 3] None))"
    and cols: "\<And>k. k \<notin> set (LOCATIONS (script_globals ''peaklets'')) \<Longrightarrow>
                map_of r k =
                  map_of (new_doc ''xenonnt_v14'' ''2024.01.1'' [1, 2, 3] (JStr ''abc'')
                            (strip_version_suffix [(''straxen_version'', JStr ''2.2.0''),
                               (''strax_version'', JStr ''1.6.0''),
                               (''cutax_version'', JStr ''1.16.0'')])) k"
    and cell: "map_of r ''UC_DALI_USERDISK'' =
                 Some (JStr (py_str (int (length (runs_find demo_db ?q [(''number'', JInt 1)]))) @ '' ('' @
                   format_1f (py_float_mul
                     (fl (of_nat (length (runs_find demo_db ?q [(''number'', JInt 1)])) /
                          of_nat (length [1::int, 2, 3]))) 100) @ ''%)''))"
    unfolding Let_def by (auto simp: script_globals_def module_globals_def)
  from cols [of "''Context''"] have 1: "map_of r ''Context'' = Some (JStr ''xenonnt_v14'')"
    by (simp add: script_globals_def module_globals_def new_doc_three_versions version_row_def)
  have "map_of r ''UC_DALI_USERDISK'' =
          Some (JStr (py_str 2 @ '' ('' @
            format_1f (py_float_mul (fl (of_int 2 / of_int (int (length [1::int, 2, 3])))) 100) @
            ''%)''))"
    using cell by (simp only: demo_matched_dali) simp
  then have 2: "map_of r ''UC_DALI_USERDISK'' = Some (JStr ''2 (66.7%)'')"
    by (simp only: percentage_2_3 py_str_2) simp
  from r 1 2 show ?thesis by blast
qed

text \<open>
  C4 (as amended).  For an existing file in which no line that \<^verbatim>\<open>str.isdigit\<close> accepts
  holds a digit character that is not a decimal digit (a superscript two, three or one)
  or has more than 4300 characters, \<open>read_run_ids_from_file\<close> prints nothing and returns,
  in the order of the file and with repetitions, the numbers of exactly those lines of
  \<^verbatim>\<open>splitlines\<close> that consist of decimal digits, at least one; every other line is
  dropped, also a line such as \<^verbatim>\<open>-5\<close> that is a valid integer.  When newline is the only
  line boundary in the text, these lines are the newline-delimited ones.
\<close>

theorem read_run_ids_digit_lines:
  assumes "fs filename = Some text"
    and "list_all (\<lambda>l. isdigit l \<longrightarrow> list_all decimal_char l \<and> length l \<le> int_max_str_digits)
           (splitlines text)"
  shows "read_run_ids_from_file fs filename = ([], Inr (run_ids_of_lines (splitlines text))) \<and>
         (list_all (\<lambda>c. line_boundary c \<longrightarrow> c = CHR 0x0A) text \<longrightarrow>
            run_ids_of_lines (splitlines text) = run_ids_of_lines (split_newline text))"
proof -
  have a: "read_run_ids_from_file fs filename = ([], Inr (run_ids_of_lines (splitlines text)))"
    using assms
    by (simp add: read_run_ids_from_file_def digit_lines_to_int_decimal run_ids_of_lines_def)
  have b: "run_ids_of_lines (splitlines text) = run_ids_of_lines (split_newline text)"
    if "list_all (\<lambda>c. line_boundary c \<longrightarrow> c = CHR 0x0A) text"
  proof -
    have "run_ids_of_lines (splitlines text) =
            run_ids_of_lines (filter (\<lambda>l. l \<noteq> []) (splitlines text))"
      by (simp add: run_ids_of_lines_nonempty)
    also have "\<dots> = run_ids_of_lines (filter (\<lambda>l. l \<noteq> []) (split_newline text))"
      using splitlines_from_newline_only [OF that, of "[]"]
      by (simp add: splitlines_def split_newline_def)
    also have "\<dots> = run_ids_of_lines (split_newline text)"
      by (simp add: run_ids_of_lines_nonempty)
    finally show ?thesis .
  qed
  show ?thesis using a b by blast
qed

theorem read_run_ids_digit_lines_witness:
  "read_run_ids_from_file (one_file ''runs.txt'' ''12\<newline>x\<newline>007\<newline>12\<newline>'') ''runs.txt'' =
     ([], Inr [12, 7, 12])"
proof -
  let ?t = "''12\<newline>x\<newline>007\<newline>12\<newline>''"
  have h1: "one_file ''runs.txt'' ?t ''runs.txt'' = Some ?t" by (simp add: one_file_def)
  have h2: "list_all (\<lambda>l. isdigit l \<longrightarrow> list_all decimal_char l \<and> length l \<le> int_max_str_digits)
              (splitlines ?t)"
    by code_simp
  have v: "run_ids_of_lines (splitlines ?t) = [12, 7, 12]" by code_simp
  show ?thesis
    using read_run_ids_digit_lines [of "one_file ''runs.txt'' ?t" "''runs.txt''" ?t, OF h1 h2] v
    by simp
qed

text \<open>
  The claim as the specification words it fails on a file with the two lines \<^verbatim>\<open>12\<close> and
  \<^verbatim>\<open>-5\<close>: both are valid integers, and the function returns the first only.
\<close>

theorem read_run_ids_counterexample:
  "read_run_ids_from_file (one_file ''runs.txt'' ''12\<newline>-5\<newline>'') ''runs.txt'' = ([], Inr [12]) \<and>
   newline_integer_lines ''12\<newline>-5\<newline>'' = [12, - 5]"
  by code_simp

text \<open>
  C5.  With an empty list of run ids, \<open>check_runs_available\<close> raises ValueError: it sends
  no query, prints nothing, leaves the globals as they were and returns no report, for
  every data type and extra location.
\<close>

theorem check_runs_available_empty_run_ids:
  "check_runs_available g db data_type [] extra_location = (g, [], Inl ValueError)"
  by (simp add: check_runs_available_def)

theorem check_runs_available_empty_run_ids_witness:
  "check_runs_available module_globals demo_db ''peaklets'' [] (Some ''SDSC_USERDISK'') =
     (module_globals, [], Inl ValueError)"
  by (rule check_runs_available_empty_run_ids)

text \<open>
  C6.  For a science run of the module's table, in every state that earlier calls can
  have left, \<open>get_runs_from_source\<close> sends one query to the runs collection: the
  predicate of the science run with the top-level key \<^verbatim>\<open>source\<close> set to the given source,
  projected to the run number; it returns the numbers of the documents found.  The
  predicate of sr0 is the disjunction of the tag _sr0 and of the th-232 runs that started
  on or before 2022-08-01.
\<close>

theorem get_runs_from_source_query:
  assumes "map_of (SCIENCE_RUNS module_globals) science_run = Some predicate"
  shows "snd (get_runs_from_source (after_calls (module_globals \<lparr> global_data_type := d \<rparr>) calls)
                db science_run source) =
           ([Find ''runs'' (predicate @ [(''source'', JStr source)]) [(''number'', JInt 1)]],
            Inr (map number (runs_find db (predicate @ [(''source'', JStr source)])
                               [(''number'', JInt 1)]))) \<and>
         map_of (SCIENCE_RUNS module_globals) ''sr0'' =
           Some [(''$or'',
                   JList [JDict [(''tags.name'', JStr ''_sr0'')],
                          JDict [(''source'', JStr ''th-232''),
                                 (''start'', JDict [(''$lte'', JDate 2022 8 1)])]])]"
proof -
  have a: "science_runs_state (after_calls (module_globals \<lparr> global_data_type := d \<rparr>) calls)"
    by (rule after_calls_state [OF science_runs_state_module])
  show ?thesis
    using assms by (simp add: get_runs_from_source_in_state [OF a]) (simp add: module_globals_def)
qed

theorem get_runs_from_source_query_witness:
  "snd (get_runs_from_source
          (after_calls (module_globals \<lparr> global_data_type := Some ''peaklets'' \<rparr>)
             [SourceCall demo_db ''sr0'' ''none''])
          demo_db ''sr0'' ''th-232'') =
     ([Find ''runs''
         [(''$or'',
            JList [JDict [(''tags.name'', JStr ''_sr0'')],
                   JDict [(''source'', JStr ''th-232''),
                          (''start'', JDict [(''$lte'', JDate 2022 8 1)])]]),
          (''source'', JStr ''th-232'')]
         [(''number'', JInt 1)]],
      Inr [7, 9])"
proof -
  have h: "map_of (SCIENCE_RUNS module_globals) ''sr0'' =
             Some [(''$or'',
                     JList [JDict [(''tags.name'', JStr ''_sr0'')],
                            JDict [(''source'', JStr ''th-232''),
                                   (''start'', JDict [(''$lte'', JDate 2022 8 1)])]])]"
    by (simp add: module_globals_def)
  from get_runs_from_source_query [OF h, of "Some ''peaklets''" "[SourceCall demo_db ''sr0'' ''none'']"
      demo_db "''th-232''"]
  show ?thesis by (simp add: demo_db_def)
qed

text \<open>
  C7.  The specification has the row of a context that only the lookup by the versions
  of \<open>ENV_VERSIONS\<close> resolves report the versions of that table under straxen, strax and
  cutax.  The code writes these versions into the row and then, into the same dict, the
  availability cell of every location under the location's name.  So the row holds the
  context's own columns with the table's versions in every column that is not the name
  of a location in use; but a location in use has its availability cell in the column
  of its name, and that cell is none of the table's versions: for a location named
  straxen, strax or cutax the row does not report the version.
\<close>

theorem fallback_versions_overwritten:
  assumes "check_runs_available g db data_type run_ids extra_location = (g', evs, Inr rows)"
    and "(context, env_version) \<in> set RECOMMENDED"
    and "snd (get_lineage_hash db context env_version data_type) = Inr (primary_hash, primary_versions)"
    and "\<not> jv_truthy primary_hash"
    and "map_of ENV_VERSIONS context = Some versions"
    and "snd (get_lineae_hash_from_version g db context versions) = Inr lineage_hash"
    and "jv_truthy lineage_hash"
  shows "\<exists>straxen strax cutax.
           versions = [(''straxen_version'', JStr straxen), (''strax_version'', JStr strax),
                       (''cutax_version'', JStr cutax)] \<and>
           (\<exists>r \<in> set rows.
              (\<forall>k. k \<notin> set (LOCATIONS g) \<longrightarrow> extra_location \<noteq> Some k \<longrightarrow>
                 map_of r k =
                   map_of [(''Context'', JStr context), (''Environment'', JStr env_version),
                           (''Total Checked'', JInt (int (length run_ids))),
                           (''LineageHash'', lineage_hash),
                           (''straxen'', JStr straxen), (''strax'', JStr strax),
                           (''cutax'', JStr cutax)] k) \<and>
              (\<forall>k. k \<in> set (LOCATIONS g) \<or> extra_location = Some k \<and> k \<noteq> [] \<longrightarrow>
                 (\<exists>cell.
                    availability
                      (int (length (snd (get_runs_from_db db run_ids data_type lineage_hash (Some k)))))
                      (int (length run_ids)) = Inr cell \<and>
                    map_of r k = Some (JStr cell) \<and>
                    cell \<noteq> straxen \<and> cell \<noteq> strax \<and> cell \<noteq> cutax)))"
proof -
  from ENV_VERSIONS_shape [OF assms(5)] obtain a b d where
    v: "versions = [(''straxen_version'', JStr a), (''strax_version'', JStr b),
                    (''cutax_version'', JStr d)]"
    by blast
  from ENV_VERSIONS_no_cell [OF assms(5)] v
  have last: "last a \<noteq> CHR '')''" "last b \<noteq> CHR '')''" "last d \<noteq> CHR '')''" by simp_all
  from check_runs_available_success [OF assms(1)] have ne: "run_ids \<noteq> []" by simp
  have res: "snd (resolve_lineage g db context env_version data_type) = Inr (lineage_hash, versions)"
    by (rule resolve_lineage_by_fallback [OF assms(3,4,5,6)])
  from resolved_context_row [OF assms(1,2) res assms(7)] obtain r where r: "r \<in> set rows"
    and cells: "\<And>k. k \<in> used_locations g extra_location \<Longrightarrow>
              map_of r k =
                Some (JStr (cell_text (matched db run_ids data_type lineage_hash k)
                              (int (length run_ids))))"
    and cols: "\<And>k. k \<notin> used_locations g extra_location \<Longrightarrow>
              map_of r k =
                map_of (new_doc context env_version run_ids lineage_hash (strip_version_suffix versions)) k"
    by blast
  have 1: "map_of r k =
          map_of [(''Context'', JStr context), (''Environment'', JStr env_version),
                  (''Total Checked'', JInt (int (length run_ids))),
                  (''LineageHash'', lineage_hash),
                  (''straxen'', JStr a), (''strax'', JStr b), (''cutax'', JStr d)] k"
    if "k \<notin> set (LOCATIONS g)" "extra_location \<noteq> Some k" for k
  proof -
    from that have "k \<notin> used_locations g extra_location" by (simp add: used_locations_iff)
    from cols [OF this] show ?thesis
      unfolding v new_doc_three_versions version_row_def .
  qed
  have 2: "\<exists>cell.
             availability
               (int (length (snd (get_runs_from_db db run_ids data_type lineage_hash (Some k)))))
               (int (length run_ids)) = Inr cell \<and>
             map_of r k = Some (JStr cell) \<and> cell \<noteq> a \<and> cell \<noteq> b \<and> cell \<noteq> d"
    if "k \<in> set (LOCATIONS g) \<or> extra_location = Some k \<and> k \<noteq> []" for k
  proof -
    let ?cell = "cell_text (matched db run_ids data_type lineage_hash k) (int (length run_ids))"
    from that have u: "k \<in> used_locations g extra_location" by (simp add: used_locations_iff)
    have "availability
            (int (length (snd (get_runs_from_db db run_ids data_type lineage_hash (Some k)))))
            (int (length run_ids)) = Inr ?cell"
      using ne by (simp add: availability_cell_text matched_def)
    moreover have "?cell \<noteq> a" "?cell \<noteq> b" "?cell \<noteq> d"
      using last cell_text_last [of "matched db run_ids data_type lineage_hash k" "int (length run_ids)"]
      by auto
    ultimately show ?thesis using cells [OF u] by blast
  qed
  from r v 1 2 show ?thesis by blast
qed

text \<open>
  With the extra location \<^verbatim>\<open>strax\<close>, the row of xenonnt_v14, which only the lookup by
  versions resolves, has the cell \<^verbatim>\<open>0 (0.0%)\<close> under strax, where the table has 1.6.0.
\<close>

theorem fallback_versions_overwritten_witness:
  "map_of ENV_VERSIONS ''xenonnt_v14'' =
     Some [(''straxen_version'', JStr ''2.2.0''), (''strax_version'', JStr ''1.6.0''),
           (''cutax_version'', JStr ''1.16.0'')] \<and>
   (\<exists>r \<in> set (report_rows (check_runs_available (script_globals ''peaklets'') demo_db ''peaklets''
                           [1, 2, 3] (Some ''strax''))).
     map_of r ''Context'' = Some (JStr ''xenonnt_v14'') \<and>
     map_of r ''straxen'' = Some (JStr ''2.2.0'') \<and>
     map_of r ''strax'' = Some (JStr ''0 (0.0%)'') \<and>
     map_of r ''cutax'' = Some (JStr ''1.16.0''))"
proof -
  have nt: "\<not> jv_truthy JNone" and t: "jv_truthy (JStr ''abc'')" by simp_all
  from fallback_versions_overwritten [OF demo_run_strax v14_in_RECOMMENDED demo_primary_v14 nt
      ENV_VERSIONS_v14 demo_fallback_v14 t]
  obtain a b d r where
    v: "[(''straxen_version'', JStr ''2.2.0''), (''strax_version'', JStr ''1.6.0''),
         (''cutax_version'', JStr ''1.16.0'')] =
        [(''straxen_version'', JStr a), (''strax_version'', JStr b), (''cutax_version'', JStr d)]"
    and r: "r \<in> set (report_rows (check_runs_available (script_globals ''peaklets'') demo_db
                                  ''peaklets'' [1, 2, 3] (Some ''strax'')))"
    and cols: "\<forall>k. k \<notin> set (LOCATIONS (script_globals ''peaklets'')) \<longrightarrow> Some ''strax'' \<noteq> Some k \<longrightarrow>
                map_of r k =
                  map_of [(''Context'', JStr ''xenonnt_v14''), (''Environment'', JStr ''2024.01.1''),
                          (''Total Checked'', JInt (int (length [1::int, 2, 3]))),
                          (''LineageHash'', JStr ''abc''),
                          (''straxen'', JStr a), (''strax'', JStr b), (''cutax'', JStr d)] k"
    and cells: "\<forall>k. k \<in> set (LOCATIONS (script_globals ''peaklets'')) \<or>
                    Some ''strax'' = Some k \<and> k \<noteq> [] \<longrightarrow>
                 (\<exists>cell.
                    availability
                      (int (length (snd (get_runs_from_db demo_db [1, 2, 3] ''peaklets'' (JStr ''abc'')
                                           (Some k)))))
                      (int (length [1::int, 2, 3])) = Inr cell \<and>
                    map_of r k = Some (JStr cell) \<and> cell \<noteq> a \<and> cell \<noteq> b \<and> cell \<noteq> d)"
    by blast
  from v have abd: "a = ''2.2.0''" "d = ''1.16.0''" by simp_all
  have loc: "LOCATIONS (script_globals ''peaklets'') = [''UC_DALI_USERDISK'', ''UC_MIDWAY_USERDISK'']"
    by (simp add: script_globals_def module_globals_def)
  from cells [rule_format, of "''strax''"] obtain cell where
    c: "availability
          (int (length (snd (get_runs_from_db demo_db [1, 2, 3] ''peaklets'' (JStr ''abc'')
                               (Some ''strax'')))))
          (int (length [1::int, 2, 3])) = Inr cell"
    and m: "map_of r ''strax'' = Some (JStr cell)"
    by auto
  from c have "cell = ''0 (0.0%)''" by (simp only: demo_strax_cell) simp
  with m have s: "map_of r ''strax'' = Some (JStr ''0 (0.0%)'')" by simp
  have 1: "map_of r ''Context'' = Some (JStr ''xenonnt_v14'')"
    using cols [rule_format, of "''Context''"] by (simp add: loc)
  have 2: "map_of r ''straxen'' = Some (JStr ''2.2.0'')"
    using cols [rule_format, of "''straxen''"] by (simp add: loc abd)
  have 3: "map_of r ''cutax'' = Some (JStr ''1.16.0'')"
    using cols [rule_format, of "''cutax''"] by (simp add: loc abd)
  from r s 1 2 3 ENV_VERSIONS_v14 show ?thesis by blast
qed

text \<open>
  C8 (as amended).  For a recommended context whose lookup by name and tag finds a
  document with a hash for the data type that is true as a Python value (for a string:
  not empty), every \<^verbatim>\<open>find_one\<close> of the call whose query names the context is that
  lookup, so the lookup by versions is not among the events of the call; and a report
  that the call returns has a row that holds, in every column that is not the name of a
  location in use, the context's own columns with the versions of that document (UNKNOWN
  for a version that the document lacks).
\<close>

theorem primary_lookup_suffices:
  assumes "check_runs_available g db data_type run_ids extra_location = (g', evs, res)"
    and "(context, env_version) \<in> set RECOMMENDED"
    and "contexts_find_one db [(''name'', JStr context), (''tag'', JStr env_version)]
           [(''hashes.'' @ data_type, JInt 1), (''straxen_version'', JInt 1),
            (''strax_version'', JInt 1), (''cutax_version'', JInt 1)] = Some doc"
    and "map_of doc ''hashes'' = Some (JDict hashes)"
    and "map_of hashes data_type = Some lineage_hash"
    and "jv_truthy lineage_hash"
  shows "(\<forall>q p. FindOne ''contexts'' q p \<in> set evs \<longrightarrow> map_of q ''name'' = Some (JStr context) \<longrightarrow>
            q = [(''name'', JStr context), (''tag'', JStr env_version)]) \<and>
         (\<forall>versions. map_of ENV_VERSIONS context = Some versions \<longrightarrow>
            set (fst (get_lineae_hash_from_version g db context versions)) \<inter> set evs = {}) \<and>
         (\<forall>rows. res = Inr rows \<longrightarrow>
            (\<exists>r \<in> set rows.
               \<forall>k. k \<notin> set (LOCATIONS g) \<longrightarrow> extra_location \<noteq> Some k \<longrightarrow>
                 map_of r k =
                   map_of [(''Context'', JStr context), (''Environment'', JStr env_version),
                           (''Total Checked'', JInt (int (length run_ids))),
                           (''LineageHash'', lineage_hash),
                           (''straxen'', case map_of doc ''straxen_version'' of
                                           None \<Rightarrow> JStr ''UNKNOWN'' | Some v \<Rightarrow> v),
                           (''strax'', case map_of doc ''strax_version'' of
                                           None \<Rightarrow> JStr ''UNKNOWN'' | Some v \<Rightarrow> v),
                           (''cutax'', case map_of doc ''cutax_version'' of
                                           None \<Rightarrow> JStr ''UNKNOWN'' | Some v \<Rightarrow> v)] k))"
proof -
  let ?a = "case map_of doc ''straxen_version'' of None \<Rightarrow> JStr ''UNKNOWN'' | Some v \<Rightarrow> v"
  let ?b = "case map_of doc ''strax_version'' of None \<Rightarrow> JStr ''UNKNOWN'' | Some v \<Rightarrow> v"
  let ?d = "case map_of doc ''cutax_version'' of None \<Rightarrow> JStr ''UNKNOWN'' | Some v \<Rightarrow> v"
  let ?v = "[(''straxen_version'', ?a), (''strax_version'', ?b), (''cutax_version'', ?d)]"
  let ?q = "[(''name'', JStr context), (''tag'', JStr env_version)]"
  have glh: "snd (get_lineage_hash db context env_version data_type) = Inr (lineage_hash, ?v)"
    using get_lineage_hash_found [OF assms(3,4)] assms(5) by simp
  have rl: "resolve_lineage g db context env_version data_type =
              (fst (get_lineage_hash db context env_version data_type), Inr (lineage_hash, ?v))"
    by (rule resolve_lineage_primary [OF glh assms(6)])
  have lookups: "q = ?q"
    if e: "FindOne ''contexts'' q p \<in> set evs" and n: "map_of q ''name'' = Some (JStr context)"
    for q p
  proof -
    from e assms(1) have ne: "run_ids \<noteq> []"
      by (auto simp: check_runs_available_def split: if_splits)
    with assms(1) have run:
      "check_contexts g db data_type run_ids extra_location RECOMMENDED [] = (g', evs, res)"
      by (simp add: check_runs_available_def)
    from check_contexts_events [OF run ne e] obtain c' env' where
      c': "(c', env') \<in> set RECOMMENDED"
      and ev: "FindOne ''contexts'' q p \<in> set (fst (resolve_lineage g db c' env' data_type))"
      by auto
    from resolve_lineage_names [OF ev] n have "c' = context" by simp
    with c' assms(2) have "env' = env_version" by (auto dest: RECOMMENDED_functional)
    with ev \<open>c' = context\<close> rl show ?thesis by (simp add: fst_get_lineage_hash)
  qed
  have no_fallback: "set (fst (get_lineae_hash_from_version g db context versions)) \<inter> set evs = {}"
    if t: "map_of ENV_VERSIONS context = Some versions" for versions
  proof -
    from ENV_VERSIONS_shape [OF t] obtain a b d where
      v: "versions = [(''straxen_version'', JStr a), (''strax_version'', JStr b),
                      (''cutax_version'', JStr d)]"
      by blast
    have "e \<notin> set evs" if e: "e \<in> set (fst (get_lineae_hash_from_version g db context versions))" for e
    proof
      assume "e \<in> set evs"
      from e obtain p where
        "e = FindOne ''contexts'' (AList.update ''name'' (JStr context) versions) p"
        by (auto simp: fst_get_lineae_hash_from_version split: option.splits)
      with \<open>e \<in> set evs\<close> lookups [of "AList.update ''name'' (JStr context) versions" p]
      show False by (simp add: v update_conv')
    qed
    then show ?thesis by blast
  qed
  have row: "\<exists>r \<in> set rows.
               \<forall>k. k \<notin> set (LOCATIONS g) \<longrightarrow> extra_location \<noteq> Some k \<longrightarrow>
                 map_of r k =
                   map_of [(''Context'', JStr context), (''Environment'', JStr env_version),
                           (''Total Checked'', JInt (int (length run_ids))),
                           (''LineageHash'', lineage_hash),
                           (''straxen'', ?a), (''strax'', ?b), (''cutax'', ?d)] k"
    if "res = Inr rows" for rows
  proof -
    have res': "snd (resolve_lineage g db context env_version data_type) = Inr (lineage_hash, ?v)"
      using rl by simp
    from resolved_context_row [OF assms(1) [unfolded that] assms(2) res' assms(6)]
    obtain r where r: "r \<in> set rows"
      and cols: "\<And>k. k \<notin> used_locations g extra_location \<Longrightarrow>
              map_of r k =
                map_of (new_doc context env_version run_ids lineage_hash (strip_version_suffix ?v)) k"
      by blast
    have "map_of r k =
            map_of [(''Context'', JStr context), (''Environment'', JStr env_version),
                    (''Total Checked'', JInt (int (length run_ids))),
                    (''LineageHash'', lineage_hash),
                    (''straxen'', ?a), (''strax'', ?b), (''cutax'', ?d)] k"
      if "k \<notin> set (LOCATIONS g)" "extra_location \<noteq> Some k" for k
    proof -
      from that have "k \<notin> used_locations g extra_location" by (simp add: used_locations_iff)
      from cols [OF this] show ?thesis
        unfolding new_doc_three_versions version_row_def .
    qed
    with r show ?thesis by blast
  qed
  from lookups no_fallback row show ?thesis by blast
qed

theorem primary_lookup_suffices_witness:
  "fst (get_lineae_hash_from_version (script_globals ''peaklets'') demo_db ''xenonnt_v13''
          [(''straxen_version'', JStr ''2.1.5''), (''strax_version'', JStr ''1.5.4''),
           (''cutax_version'', JStr ''1.15.5'')]) =
     [FindOne ''contexts''
        [(''straxen_version'', JStr ''2.1.5''), (''strax_version'', JStr ''1.5.4''),
         (''cutax_version'', JStr ''1.15.5''), (''name'', JStr ''xenonnt_v13'')]
        [(''hashes.peaklets'', JInt 1)]] \<and>
   FindOne ''contexts''
        [(''straxen_version'', JStr ''2.1.5''), (''strax_version'', JStr ''1.5.4''),
         (''cutax_version'', JStr ''1.15.5''), (''name'', JStr ''xenonnt_v13'')]
        [(''hashes.peaklets'', JInt 1)]
     \<notin> set (fst (snd (check_runs_available (script_globals ''peaklets'') demo_db ''peaklets''
                         [1, 2, 3] None))) \<and>
   (\<exists>r \<in> set (report_rows (check_runs_available (script_globals ''peaklets'') demo_db ''peaklets''
                           [1, 2, 3] None)).
     map_of r ''Context'' = Some (JStr ''xenonnt_v13'') \<and>
     map_of r ''straxen'' = Some (JStr ''2.1.5'') \<and>
     map_of r ''strax'' = Some (JStr ''1.5.4'') \<and>
     map_of r ''cutax'' = Some (JStr ''1.15.5''))"
proof -
  let ?run = "check_runs_available (script_globals ''peaklets'') demo_db ''peaklets'' [1, 2, 3] None"
  let ?vs = "[(''straxen_version'', JStr ''2.1.5''), (''strax_version'', JStr ''1.5.4''),
              (''cutax_version'', JStr ''1.15.5'')]"
  let ?doc = "[(''hashes'', JDict [(''peaklets'', JStr ''h13'')]),
               (''straxen_version'', JStr ''2.1.5''), (''strax_version'', JStr ''1.5.4''),
               (''cutax_version'', JStr ''1.15.5'')]"
  have fb: "fst (get_lineae_hash_from_version (script_globals ''peaklets'') demo_db ''xenonnt_v13'' ?vs) =
     [FindOne ''contexts''
        [(''straxen_version'', JStr ''2.1.5''), (''strax_version'', JStr ''1.5.4''),
         (''cutax_version'', JStr ''1.15.5''), (''name'', JStr ''xenonnt_v13'')]
        [(''hashes.peaklets'', JInt 1)]]"
    by (simp add: fst_get_lineae_hash_from_version script_globals_def module_globals_def)
  have h1: "map_of ?doc ''hashes'' = Some (JDict [(''peaklets'', JStr ''h13'')])" by simp
  have h2: "map_of [(''peaklets'', JStr ''h13'')] ''peaklets'' = Some (JStr ''h13'')" by simp
  have h3: "jv_truthy (JStr ''h13'')" by simp
  note t = primary_lookup_suffices [OF demo_run v13_in_RECOMMENDED demo_find_v13 h1 h2 h3]
  from t have nf: "\<forall>versions. map_of ENV_VERSIONS ''xenonnt_v13'' = Some versions \<longrightarrow>
            set (fst (get_lineae_hash_from_version (script_globals ''peaklets'') demo_db
                        ''xenonnt_v13'' versions)) \<inter> set (fst (snd ?run)) = {}"
    by (elim conjE)
  from nf [rule_format, OF ENV_VERSIONS_v13]
  have 1: "FindOne ''contexts''
        [(''straxen_version'', JStr ''2.1.5''), (''strax_version'', JStr ''1.5.4''),
         (''cutax_version'', JStr ''1.15.5''), (''name'', JStr ''xenonnt_v13'')]
        [(''hashes.peaklets'', JInt 1)] \<notin> set (fst (snd ?run))"
    unfolding fb by simp
  from t [THEN conjunct2, THEN conjunct2, rule_format, OF refl]
  obtain r where r: "r \<in> set (report_rows ?run)"
    and cols: "\<And>k. k \<notin> set (LOCATIONS (script_globals ''peaklets'')) \<Longrightarrow>
                 map_of r k =
                   map_of [(''Context'', JStr ''xenonnt_v13''), (''Environment'', JStr ''2023.11.1''),
                           (''Total Checked'', JInt (int (length [1::int, 2, 3]))),
                           (''LineageHash'', JStr ''h13''),
                           (''straxen'', JStr ''2.1.5''), (''strax'', JStr ''1.5.4''),
                           (''cutax'', JStr ''1.15.5'')] k"
    by auto
  have loc: "LOCATIONS (script_globals ''peaklets'') = [''UC_DALI_USERDISK'', ''UC_MIDWAY_USERDISK'']"
    by (simp add: script_globals_def module_globals_def)
  have c1: "map_of r ''Context'' = Some (JStr ''xenonnt_v13'')"
    using cols [of "''Context''"] by (simp add: loc)
  have c2: "map_of r ''straxen'' = Some (JStr ''2.1.5'')"
    using cols [of "''straxen''"] by (simp add: loc)
  have c3: "map_of r ''strax'' = Some (JStr ''1.5.4'')"
    using cols [of "''strax''"] by (simp add: loc)
  have c4: "map_of r ''cutax'' = Some (JStr ''1.15.5'')"
    using cols [of "''cutax''"] by (simp add: loc)
  from r fb 1 c1 c2 c3 c4 show ?thesis by blast
qed

text \<open>
  As the specification words it, for every hash that the lookup by name and tag yields,
  the claim fails for the empty string: \<^verbatim>\<open>if not lineage_hash\<close> counts it as no hash,
  and the lookup by versions is sent for the context all the same.
\<close>

theorem primary_lookup_counterexample:
  "contexts_find_one empty_hash_db
     [(''name'', JStr ''xenonnt_v14''), (''tag'', JStr ''2024.01.1'')]
     [(''hashes.peaklets'', JInt 1), (''straxen_version'', JInt 1),
      (''strax_version'', JInt 1), (''cutax_version'', JInt 1)] =
   Some [(''hashes'', JDict [(''peaklets'', JStr '''')]),
         (''straxen_version'', JStr ''2.2.0''), (''strax_version'', JStr ''1.6.0''),
         (''cutax_version'', JStr ''1.16.0'')] \<and>
   get_lineae_hash_from_version (script_globals ''peaklets'') empty_hash_db ''xenonnt_v14''
     [(''straxen_version'', JStr ''2.2.0''), (''strax_version'', JStr ''1.6.0''),
      (''cutax_version'', JStr ''1.16.0'')] =
     ([FindOne ''contexts''
         [(''straxen_version'', JStr ''2.2.0''), (''strax_version'', JStr ''1.6.0''),
          (''cutax_version'', JStr ''1.16.0''), (''name'', JStr ''xenonnt_v14'')]
         [(''hashes.peaklets'', JInt 1)]],
      Inr JNone) \<and>
   FindOne ''contexts''
     [(''straxen_version'', JStr ''2.2.0''), (''strax_version'', JStr ''1.6.0''),
      (''cutax_version'', JStr ''1.16.0''), (''name'', JStr ''xenonnt_v14'')]
     [(''hashes.peaklets'', JInt 1)]
     \<in> set (fst (snd (check_runs_available (script_globals ''peaklets'') empty_hash_db ''peaklets''
                         [1] None)))"
proof -
  have 1: "contexts_find_one empty_hash_db
     [(''name'', JStr ''xenonnt_v14''), (''tag'', JStr ''2024.01.1'')]
     [(''hashes.peaklets'', JInt 1), (''straxen_version'', JInt 1),
      (''strax_version'', JInt 1), (''cutax_version'', JInt 1)] =
   Some [(''hashes'', JDict [(''peaklets'', JStr '''')]),
         (''straxen_version'', JStr ''2.2.0''), (''strax_version'', JStr ''1.6.0''),
         (''cutax_version'', JStr ''1.16.0'')]"
    by (simp add: empty_hash_db_def)
  have 2: "get_lineae_hash_from_version (script_globals ''peaklets'') empty_hash_db ''xenonnt_v14''
     [(''straxen_version'', JStr ''2.2.0''), (''strax_version'', JStr ''1.6.0''),
      (''cutax_version'', JStr ''1.16.0'')] =
     ([FindOne ''contexts''
         [(''straxen_version'', JStr ''2.2.0''), (''strax_version'', JStr ''1.6.0''),
          (''cutax_version'', JStr ''1.16.0''), (''name'', JStr ''xenonnt_v14'')]
         [(''hashes.peaklets'', JInt 1)]],
      Inr JNone)"
    by (simp add: get_lineae_hash_from_version_def empty_hash_db_def script_globals_def
          module_globals_def)
  have 3: "FindOne ''contexts''
     [(''straxen_version'', JStr ''2.2.0''), (''strax_version'', JStr ''1.6.0''),
      (''cutax_version'', JStr ''1.16.0''), (''name'', JStr ''xenonnt_v14'')]
     [(''hashes.peaklets'', JInt 1)]
     \<in> set (fst (snd (check_runs_available (script_globals ''peaklets'') empty_hash_db ''peaklets''
                         [1] None)))"
    by (simp add: empty_hash_report)
  from 1 2 3 show ?thesis by (intro conjI)
qed

text \<open>
  C9.  For a path that names no file, \<open>read_run_ids_from_file\<close> returns the empty list,
  raises nothing, and its only effect is the one printed line.
\<close>

theorem read_run_ids_missing_file:
  assumes "fs filename = None"
  shows "read_run_ids_from_file fs filename =
           ([Printed (''File '' @ filename @ '' not found'')], Inr [])"
  using assms by (simp add: read_run_ids_from_file_def)

theorem read_run_ids_missing_file_witness:
  "read_run_ids_from_file no_files ''runs.txt'' =
     ([Printed ''File runs.txt not found''], Inr [])"
  using read_run_ids_missing_file [of no_files "''runs.txt''"] by (simp add: no_files_def)

text \<open>
  C10.  What \<open>get_runs_from_source\<close> sends and returns depends on its two arguments and
  on the database only: after any sequence of earlier calls of \<open>get_runs_from_source\<close> and
  \<open>check_runs_available\<close>, with any arguments and databases, the events and the result of
  a call are those of the same call on the module as it was loaded.
\<close>

theorem get_runs_from_source_independent_of_history:
  "snd (get_runs_from_source (after_calls (module_globals \<lparr> global_data_type := d \<rparr>) calls)
          db science_run source) =
   snd (get_runs_from_source module_globals db science_run source)"
proof -
  have a: "science_runs_state (after_calls (module_globals \<lparr> global_data_type := d \<rparr>) calls)"
    by (rule after_calls_state [OF science_runs_state_module])
  have b: "science_runs_state module_globals"
    using science_runs_state_module [of None] by (simp add: module_globals_def)
  show ?thesis
    by (simp only: get_runs_from_source_in_state [OF a] get_runs_from_source_in_state [OF b])
qed

theorem get_runs_from_source_independent_of_history_witness:
  "snd (get_runs_from_source
          (after_calls (module_globals \<lparr> global_data_type := Some ''peaklets'' \<rparr>)
             [SourceCall demo_db ''sr0'' ''none'', SourceCall db_none ''sr1'' ''th-232'',
              CheckCall demo_db ''peaklets'' [1, 2, 3] (Some ''SDSC_USERDISK''),
              SourceCall demo_db ''sr0'' ''kr-83m''])
          demo_db ''sr0'' ''th-232'') =
   snd (get_runs_from_source module_globals demo_db ''sr0'' ''th-232'')"
  by (rule get_runs_from_source_independent_of_history)

section \<open>Further properties\<close>

text \<open>
  When a call returns a report, a recommended context that \<open>ENV_VERSIONS\<close> lists
  and for which neither lookup yields a true hash is skipped with the printed line
  \<open>Lineage hash not found for <context> and <environment>\<close>; the contexts that are
  resolved have their rows all the same.
\<close>

theorem unresolved_context_skipped:
  assumes "check_runs_available g db data_type run_ids extra_location = (g', evs, Inr rows)"
    and "(context, env_version) \<in> set RECOMMENDED"
    and "snd (get_lineage_hash db context env_version data_type) = Inr (primary_hash, primary_versions)"
    and "\<not> jv_truthy primary_hash"
    and "map_of ENV_VERSIONS context = Some versions"
    and "snd (get_lineae_hash_from_version g db context versions) = Inr lineage_hash"
    and "\<not> jv_truthy lineage_hash"
  shows "Printed (''Lineage hash not found for '' @ context @ '' and '' @ env_version) \<in> set evs"
proof -
  from check_runs_available_success [OF assms(1)]
  have ne: "run_ids \<noteq> []"
    and run: "check_contexts g db data_type run_ids extra_location RECOMMENDED [] = (g', evs, Inr rows)"
    by simp_all
  have res: "snd (resolve_lineage g db context env_version data_type) = Inr (lineage_hash, versions)"
    by (rule resolve_lineage_by_fallback [OF assms(3,4,5,6)])
  show ?thesis
    by (rule check_contexts_prints [OF run ne assms(2) res assms(7)])
qed

theorem unresolved_context_skipped_witness:
  "Printed ''Lineage hash not found for xenonnt_v12 and 2023.10.1''
     \<in> set (fst (snd (check_runs_available (script_globals ''peaklets'') demo_db ''peaklets''
                         [1, 2, 3] None)))"
proof -
  have r: "(''xenonnt_v12'', ''2023.10.1'') \<in> set RECOMMENDED" by (simp add: RECOMMENDED_def)
  have p: "snd (get_lineage_hash demo_db ''xenonnt_v12'' ''2023.10.1'' ''peaklets'') = Inr (JNone, [])"
    by (simp add: get_lineage_hash_def demo_db_def)
  have t: "map_of ENV_VERSIONS ''xenonnt_v12'' =
             Some [(''straxen_version'', JStr ''2.1.4''), (''strax_version'', JStr ''1.5.4''),
                   (''cutax_version'', JStr ''1.15.4'')]"
    by (simp add: ENV_VERSIONS_def)
  have f: "snd (get_lineae_hash_from_version (script_globals ''peaklets'') demo_db ''xenonnt_v12''
                  [(''straxen_version'', JStr ''2.1.4''), (''strax_version'', JStr ''1.5.4''),
                   (''cutax_version'', JStr ''1.15.4'')]) = Inr JNone"
    by (simp add: get_lineae_hash_from_version_def demo_db_def script_globals_def module_globals_def)
  have n: "\<not> jv_truthy JNone" by simp
  from unresolved_context_skipped [OF demo_run r p n t f n] show ?thesis by simp
qed

text \<open>
  A call of \<open>check_runs_available\<close> without an extra location (\<^verbatim>\<open>None\<close> or the empty
  string) leaves every global of the module as it found it, whether it returns or raises.
\<close>

theorem no_extra_location_keeps_globals:
  assumes "\<not> truthy extra_location"
  shows "fst (check_runs_available g db data_type run_ids extra_location) = g"
proof (cases "run_ids = []")
  case True
  then show ?thesis by (simp add: check_runs_available_def)
next
  case False
  obtain g' evs res where run:
    "check_contexts g db data_type run_ids extra_location RECOMMENDED [] = (g', evs, res)"
    by (cases "check_contexts g db data_type run_ids extra_location RECOMMENDED []")
  from check_contexts_no_extra [OF run False assms] run False show ?thesis
    by (simp add: check_runs_available_def)
qed

theorem no_extra_location_keeps_globals_witness:
  "fst (check_runs_available (script_globals ''peaklets'') demo_db ''peaklets'' [1, 2, 3] (Some [])) =
     script_globals ''peaklets''"
  using no_extra_location_keeps_globals [of "Some []" "script_globals ''peaklets''" demo_db
      "''peaklets''" "[1, 2, 3]"]
  by (simp add: truthy_def)

end
